theory Spec2Isabelle
  imports Main "HOL-Library.Word" "HOL-Library.AList"
begin

section \<open>The storage-object codec (entities/storobj/storage_object.go)\<close>

text \<open>
  A shallow embedding of the version-1 binary codec of stored objects: the encoder
  \<open>MarshalBinary\<close>, the full decoder \<open>UnmarshalBinary\<close>, the partial decoders
  \<open>FromBinaryUUIDOnly\<close>, \<open>FromBinaryOptional\<close> and \<open>VectorFromBinary\<close>, the bulk
  fetch \<open>ObjectsByDocID\<close> and the projection \<open>SearchResult\<close>.

  Conventions.
  \<^item> A Go \<open>float32\<close> is represented by its IEEE-754 bit pattern, a \<open>32 word\<close>;
    \<open>math.Float32bits\<close> and \<open>math.Float32frombits\<close> are the identity on it, and
    the zero value of \<open>float32\<close> is the word \<open>0\<close>.
  \<^item> \<open>uint8\<close>, \<open>uint16\<close>, \<open>uint32\<close>, \<open>uint64\<close> are words of that width, so
    that arithmetic wraps as in Go; an \<open>int64\<close> time stamp is kept as the
    \<open>64 word\<close> of its bits (the code converts with \<open>int64(..)\<close> and \<open>uint64(..)\<close>,
    which keep the bits). Go's \<open>int\<close> (64 bit) and the cursor position (\<open>uint64\<close>) are
    \<open>nat\<close>: they only ever hold lengths of slices and sums of a few such lengths.
  \<^item> A Go string is a \<open>string\<close>; \<open>[]byte(s)\<close> is \<open>bytes_of s\<close>.
  \<^item> A slice is a list; where the code distinguishes the nil slice it is an
    \<open>option\<close> (\<open>None\<close> is nil).
  \<^item> A Go map is an association list with distinct keys, in the order in which
    \<open>range\<close> happens to visit it; a nil map is \<open>None\<close>.
  \<^item> Every error return is \<open>Inl e\<close>. A run-time panic (a slice or index out of
    range, a failed type assertion) is also an \<open>Inl\<close>, with the errors
    \<open>Truncated\<close> and \<open>Panic\<close>, which no \<open>errors.Wrap\<close> catches.
\<close>

type_synonym byte = "8 word"
type_synonym float32 = "32 word"

datatype error =
    UnsupportedVersion nat
  | Truncated
  | Panic
  | MalformedUUID
  | MalformedJSON
  | UnknownPropertyType
  | FieldTooLarge string
  | NotFound string
  | UnableToUnmarshal string
  | BucketNotFound
  | External string
  | Wrap string error

definition is_panic :: "error \<Rightarrow> bool" where
  "is_panic e = (e = Truncated \<or> e = Panic)"

text \<open>\<open>errors.Wrap(err, msg)\<close> on the error path of a call.\<close>

definition wrap :: "string \<Rightarrow> error + 'a \<Rightarrow> error + 'a" where
  "wrap msg r = (case r of
       Inl e \<Rightarrow> if is_panic e then Inl e else Inl (Wrap msg e)
     | Inr x \<Rightarrow> Inr x)"

text \<open>Sequencing of fallible steps: \<open>x, err := m; if err != nil { return err }; f x\<close>.\<close>

definition ebind :: "error + 'a \<Rightarrow> ('a \<Rightarrow> error + 'b) \<Rightarrow> error + 'b" where
  "ebind m f = (case m of Inl e \<Rightarrow> Inl e | Inr x \<Rightarrow> f x)"

subsection \<open>Bytes and little-endian integers (encoding/binary)\<close>

definition bytes_of :: "string \<Rightarrow> byte list" where
  "bytes_of s = map (\<lambda>c. of_nat (of_char c)) s"

definition string_of :: "byte list \<Rightarrow> string" where
  "string_of bs = map (\<lambda>b. char_of (unat b)) bs"

text \<open>\<open>le_bytes k v\<close>: the \<open>k\<close> low bytes of \<open>v\<close>, least significant first.\<close>

fun le_bytes :: "nat \<Rightarrow> nat \<Rightarrow> byte list" where
  "le_bytes 0 v = []"
| "le_bytes (Suc k) v = of_nat (v mod 256) # le_bytes k (v div 256)"

fun le_nat :: "byte list \<Rightarrow> nat" where
  "le_nat [] = 0"
| "le_nat (b # bs) = unat b + 256 * le_nat bs"

definition Uint16 :: "byte list \<Rightarrow> 16 word" where
  "Uint16 bs = of_nat (le_nat bs)"

definition Uint32 :: "byte list \<Rightarrow> 32 word" where
  "Uint32 bs = of_nat (le_nat bs)"

definition Uint64 :: "byte list \<Rightarrow> 64 word" where
  "Uint64 bs = of_nat (le_nat bs)"

definition PutUint16 :: "16 word \<Rightarrow> byte list" where
  "PutUint16 v = le_bytes 2 (unat v)"

definition PutUint32 :: "32 word \<Rightarrow> byte list" where
  "PutUint32 v = le_bytes 4 (unat v)"

definition PutUint64 :: "64 word \<Rightarrow> byte list" where
  "PutUint64 v = le_bytes 8 (unat v)"

text \<open>A vector body: each \<open>float32\<close> as the four bytes of its bits.\<close>

definition floats_bytes :: "float32 list \<Rightarrow> byte list" where
  "floats_bytes vec = concat (map PutUint32 vec)"

subsection \<open>The byte cursor (usecases/byteops)\<close>

text \<open>
  Modelled from the spec: the package \<open>byteops\<close> is not among the sources. Section 4.1
  of the specification gives its cursor: a buffer with an explicit position;
  \<open>read_u8/u16/u32/u64\<close> read little-endian and advance by the natural size,
  \<open>read_bytes(n)\<close> returns the next \<open>n\<close> bytes and advances, \<open>skip\<close> and \<open>seek\<close>
  reposition without reading, the writes store little-endian and advance, the buffer
  never grows, and a read or write outside the buffer is the failure \<open>Truncated\<close>.
\<close>

record ReadWriter =
  Position :: nat
  Buffer :: "byte list"

definition NewReadWriter :: "byte list \<Rightarrow> ReadWriter" where
  "NewReadWriter data = \<lparr>Position = 0, Buffer = data\<rparr>"

definition NewReadWriterWithPosition :: "byte list \<Rightarrow> nat \<Rightarrow> ReadWriter" where
  "NewReadWriterWithPosition data pos = \<lparr>Position = pos, Buffer = data\<rparr>"

definition MoveBufferPositionForward :: "ReadWriter \<Rightarrow> nat \<Rightarrow> ReadWriter" where
  "MoveBufferPositionForward rw n = rw\<lparr>Position := Position rw + n\<rparr>"

definition MoveBufferToAbsolutePosition :: "ReadWriter \<Rightarrow> nat \<Rightarrow> ReadWriter" where
  "MoveBufferToAbsolutePosition rw pos = rw\<lparr>Position := pos\<rparr>"

definition ReadBytesFromBuffer :: "ReadWriter \<Rightarrow> nat \<Rightarrow> error + (byte list \<times> ReadWriter)" where
  "ReadBytesFromBuffer rw n =
     (if Position rw + n \<le> length (Buffer rw)
      then Inr (take n (drop (Position rw) (Buffer rw)), MoveBufferPositionForward rw n)
      else Inl Truncated)"

definition CopyBytesFromBuffer :: "ReadWriter \<Rightarrow> nat \<Rightarrow> error + (byte list \<times> ReadWriter)" where
  "CopyBytesFromBuffer rw n = ReadBytesFromBuffer rw n"

definition ReadUint8 :: "ReadWriter \<Rightarrow> error + (8 word \<times> ReadWriter)" where
  "ReadUint8 rw = ebind (ReadBytesFromBuffer rw 1) (\<lambda>(bs, rw'). Inr (of_nat (le_nat bs), rw'))"

definition ReadUint16 :: "ReadWriter \<Rightarrow> error + (16 word \<times> ReadWriter)" where
  "ReadUint16 rw = ebind (ReadBytesFromBuffer rw 2) (\<lambda>(bs, rw'). Inr (Uint16 bs, rw'))"

definition ReadUint32 :: "ReadWriter \<Rightarrow> error + (32 word \<times> ReadWriter)" where
  "ReadUint32 rw = ebind (ReadBytesFromBuffer rw 4) (\<lambda>(bs, rw'). Inr (Uint32 bs, rw'))"

definition ReadUint64 :: "ReadWriter \<Rightarrow> error + (64 word \<times> ReadWriter)" where
  "ReadUint64 rw = ebind (ReadBytesFromBuffer rw 8) (\<lambda>(bs, rw'). Inr (Uint64 bs, rw'))"

definition ReadBytesFromBufferWithUint32LengthIndicator ::
  "ReadWriter \<Rightarrow> error + (byte list \<times> ReadWriter)" where
  "ReadBytesFromBufferWithUint32LengthIndicator rw =
     ebind (ReadUint32 rw) (\<lambda>(bufLen, rw'). ReadBytesFromBuffer rw' (unat bufLen))"

definition CopyBytesToBuffer :: "ReadWriter \<Rightarrow> byte list \<Rightarrow> error + ReadWriter" where
  "CopyBytesToBuffer rw bs =
     (if Position rw + length bs \<le> length (Buffer rw)
      then Inr \<lparr>Position = Position rw + length bs,
                Buffer = take (Position rw) (Buffer rw) @ bs
                         @ drop (Position rw + length bs) (Buffer rw)\<rparr>
      else Inl Truncated)"

definition WriteByte :: "ReadWriter \<Rightarrow> 8 word \<Rightarrow> error + ReadWriter" where
  "WriteByte rw b = CopyBytesToBuffer rw [b]"

definition WriteUint16 :: "ReadWriter \<Rightarrow> 16 word \<Rightarrow> error + ReadWriter" where
  "WriteUint16 rw v = CopyBytesToBuffer rw (PutUint16 v)"

definition WriteUint32 :: "ReadWriter \<Rightarrow> 32 word \<Rightarrow> error + ReadWriter" where
  "WriteUint32 rw v = CopyBytesToBuffer rw (PutUint32 v)"

definition WriteUint64 :: "ReadWriter \<Rightarrow> 64 word \<Rightarrow> error + ReadWriter" where
  "WriteUint64 rw v = CopyBytesToBuffer rw (PutUint64 v)"


subsection \<open>Dynamic values and the object\<close>

text \<open>
  An \<open>interface{}\<close> value as the code meets it: the nil interface, what
  \<open>encoding/json\<close> decodes into (\<open>bool\<close>, \<open>float64\<close> as its bits, \<open>string\<close>,
  \<open>[]interface{}\<close>, \<open>map[string]interface{}\<close>, whose nil map is \<open>VMap None\<close>), a
  \<open>strfmt.UUID\<close>, a \<open>models.MultipleRef\<close> (each reference a beacon and a
  classification pointer, nil being \<open>None\<close>), and a value of any other named Go type.
\<close>

datatype val =
    VNil
  | VBool bool
  | VNumber "64 word"
  | VString string
  | VSlice "val list"
  | VMap "(string \<times> val) list option"
  | VUUID string
  | VMultipleRef "(string \<times> val option) list"
  | VTyped string val

text \<open>The elements of a slice or map that may be nil; \<open>len\<close> of nil is 0.\<close>

definition slice_of :: "'a list option \<Rightarrow> 'a list" where
  "slice_of s = (case s of None \<Rightarrow> [] | Some xs \<Rightarrow> xs)"

text \<open>\<open>m[k]\<close> of a map with slice values: the zero value (no elements) when absent.\<close>

definition index_vectors :: "(string \<times> float32 list) list option \<Rightarrow> string \<Rightarrow> float32 list" where
  "index_vectors m k = (case map_of (slice_of m) k of None \<Rightarrow> [] | Some v \<Rightarrow> v)"

record models_Object =
  Class :: string
  ID :: string
  CreationTimeUnix :: "64 word"
  LastUpdateTimeUnix :: "64 word"
  Properties :: val
  Additional :: "(string \<times> val) list option"
  VectorWeights :: val
  Object_Vector :: "float32 list option"
  Object_Vectors :: "(string \<times> float32 list) list option"

record storobj =
  MarshallerVersion :: "8 word"
  Object :: models_Object
  Vector :: "float32 list option"
  VectorLen :: nat
  BelongsToNode :: string
  BelongsToShard :: string
  IsConsistent :: bool
  DocID :: "64 word"
  Vectors :: "(string \<times> float32 list) list option"

text \<open>The zero value \<open>&Object{}\<close>.\<close>

definition zero_models_Object :: models_Object where
  "zero_models_Object = \<lparr>Class = [], ID = [], CreationTimeUnix = 0, LastUpdateTimeUnix = 0,
     Properties = VNil, Additional = None, VectorWeights = VNil,
     Object_Vector = None, Object_Vectors = None\<rparr>"

definition zero_Object :: storobj where
  "zero_Object = \<lparr>MarshallerVersion = 0, Object = zero_models_Object, Vector = None,
     VectorLen = 0, BelongsToNode = [], BelongsToShard = [], IsConsistent = False,
     DocID = 0, Vectors = None\<rparr>"

text \<open>
  The field mask \<open>additional.Properties\<close> (its fields \<open>Vector\<close>, \<open>NoProps\<close>,
  \<open>Classification\<close>, \<open>ModuleParams\<close>, \<open>Vectors\<close>, \<open>RefMeta\<close>, \<open>Group\<close>; the package is
  not among the sources, the fields are those the code reads).
\<close>

record additional_Properties =
  additional_Vector :: bool
  NoProps :: bool
  additional_Classification :: bool
  ModuleParams :: "(string \<times> val) list"
  additional_Vectors :: "string list"
  RefMeta :: bool
  Group :: bool

record PropertyExtraction =
  PropStrings :: "string list"
  PropStringsList :: "string list list"

text \<open>
  The collaborators outside this file, taken as parameters:
  \<^item> \<open>uuid_Parse s\<close>: \<open>uuid.Parse(s)\<close> followed by \<open>MarshalBinary()\<close>, the 16 bytes;
    \<open>uuid_FromBytes\<close> and \<open>uuid_String\<close>: \<open>uuid.FromBytes\<close> and \<open>UUID.String\<close>
    (github.com/google/uuid), a UUID value being its 16 bytes;
  \<^item> \<open>json_Marshal\<close>, \<open>json_Unmarshal\<close> (into an \<open>interface{}\<close>) and
    \<open>json_Unmarshal_map\<close> (into a \<open>map[string]interface{}\<close>): encoding/json;
  \<^item> \<open>parse_additional\<close>: lines 1123-1171 of \<open>parseObject\<close>, that is
    \<open>json.Unmarshal\<close> into \<open>models.AdditionalProperties\<close> and the re-cast of its
    \<open>classification\<close> and \<open>group\<close> entries into the typed structs of package
    \<open>additional\<close>;
  \<^item> \<open>UnmarshalProperties\<close>: the projection walker of lines 841-918, a callback
    driven by github.com/buger/jsonparser;
  \<^item> \<open>enrichSchemaTypes\<close>: the schema enrichment, defined elsewhere in the package;
  \<^item> \<open>msgpack_Marshal\<close>, \<open>msgpack_Unmarshal\<close>: github.com/vmihailenco/msgpack on a
    \<open>map[string]uint32\<close>;
  \<^item> \<open>GOMAXPROCS\<close>: \<open>runtime.GOMAXPROCS(0)\<close>.
\<close>

record env =
  uuid_Parse :: "string \<Rightarrow> error + byte list"
  uuid_FromBytes :: "byte list \<Rightarrow> error + byte list"
  uuid_String :: "byte list \<Rightarrow> string"
  json_Marshal :: "val \<Rightarrow> error + byte list"
  json_Unmarshal :: "byte list \<Rightarrow> error + val"
  json_Unmarshal_map :: "byte list \<Rightarrow> error + (string \<times> val) list option"
  parse_additional :: "byte list \<Rightarrow> error + (string \<times> val) list option"
  UnmarshalProperties ::
    "byte list \<Rightarrow> string list \<Rightarrow> string list list \<Rightarrow> error + (string \<times> val) list"
  enrichSchemaTypes ::
    "(string \<times> val) list option \<Rightarrow> bool \<Rightarrow> error + (string \<times> val) list option"
  msgpack_Marshal :: "(string \<times> 32 word) list \<Rightarrow> error + byte list"
  msgpack_Unmarshal :: "byte list \<Rightarrow> error + (string \<times> 32 word) list"
  GOMAXPROCS :: nat

subsection \<open>FromObject\<close>

text \<open>
  Lines 68-95. The nil entries of a properties map are deleted during the \<open>range\<close>;
  the named vectors are copied into a fresh map. (The caller's \<open>*models.Object\<close> is
  updated too; it is the \<open>Object\<close> field of the result.)
\<close>

definition FromObject ::
  "models_Object \<Rightarrow> float32 list option \<Rightarrow> (string \<times> float32 list) list option \<Rightarrow> storobj" where
  "FromObject object vector vectors =
     (let object' = (case Properties object of
                       VMap (Some properties) \<Rightarrow>
                         object\<lparr>Properties := VMap (Some (filter (\<lambda>(key, prop). prop \<noteq> VNil) properties))\<rparr>
                     | _ \<Rightarrow> object);
          vecs = (case vectors of
                    None \<Rightarrow> None
                  | Some vs \<Rightarrow> Some (fold (\<lambda>(targetVector, v) m. AList.update targetVector v m) vs []))
      in \<lparr>MarshallerVersion = 1, Object = object', Vector = vector,
          VectorLen = length (slice_of vector), BelongsToNode = [], BelongsToShard = [],
          IsConsistent = False, DocID = 0, Vectors = vecs\<rparr>)"

subsection \<open>MarshalBinary\<close>

definition maxVectorLength :: nat where "maxVectorLength = 65535"
definition maxClassNameLength :: nat where "maxClassNameLength = 65535"
definition maxSchemaLength :: nat where "maxSchemaLength = 4294967295"
definition maxMetaLength :: nat where "maxMetaLength = 4294967295"
definition maxVectorWeightsLength :: nat where "maxVectorWeightsLength = 4294967295"
definition maxTargetVectorsSegmentLength :: nat where "maxTargetVectorsSegmentLength = 4294967295"
definition maxTargetVectorsOffsetsLength :: nat where "maxTargetVectorsOffsetsLength = 4294967295"

text \<open>
  Lines 716-731, the \<open>range\<close> over \<open>ko.Vectors\<close>: each name gets the running segment
  length as its offset, and the order of the visit is recorded.
\<close>

fun targetVectorsLoop ::
  "(string \<times> float32 list) list \<Rightarrow> (string \<times> 32 word) list \<Rightarrow> nat \<Rightarrow> string list
   \<Rightarrow> error + ((string \<times> 32 word) list \<times> nat \<times> string list)" where
  "targetVectorsLoop [] offsetsMap segLen order = Inr (offsetsMap, segLen, order)"
| "targetVectorsLoop ((name, vec) # rest) offsetsMap segLen order =
     (if length vec > maxVectorLength then Inl (FieldTooLarge ''vector'')
      else let offsetsMap' = AList.update name (of_nat segLen) offsetsMap;
               segLen' = segLen + (2 + 4 * length vec)
           in if segLen' > maxTargetVectorsSegmentLength
              then Inl (FieldTooLarge ''targetVectorsSegmentLength'')
              else targetVectorsLoop rest offsetsMap' segLen' (order @ [name]))"

text \<open>Lines 764-766 and 806-808: one \<open>WriteUint32\<close> per element, by increasing index.\<close>

fun writeVector :: "ReadWriter \<Rightarrow> float32 list \<Rightarrow> error + ReadWriter" where
  "writeVector rw [] = Inr rw"
| "writeVector rw (x # xs) =
     (case WriteUint32 rw x of Inl e \<Rightarrow> Inl e | Inr rw' \<Rightarrow> writeVector rw' xs)"

text \<open>Lines 801-809: the segment, in the recorded order.\<close>

fun writeTargetVectors ::
  "ReadWriter \<Rightarrow> (string \<times> float32 list) list option \<Rightarrow> string list \<Rightarrow> error + ReadWriter" where
  "writeTargetVectors rw vectors [] = Inr rw"
| "writeTargetVectors rw vectors (name # names) =
     (let vec = index_vectors vectors name in
      case WriteUint16 rw (of_nat (length vec)) of
        Inl e \<Rightarrow> Inl e
      | Inr rw1 \<Rightarrow>
          (case writeVector rw1 vec of
             Inl e \<Rightarrow> Inl e
           | Inr rw2 \<Rightarrow> writeTargetVectors rw2 vectors names))"

text \<open>Lines 709-741: the offsets map, its encoding and the segment length.\<close>

definition targetVectorsPlan ::
  "env \<Rightarrow> (string \<times> float32 list) list option
   \<Rightarrow> error + (byte list \<times> 32 word \<times> nat \<times> string list)" where
  "targetVectorsPlan env vectors =
     (if length (slice_of vectors) > 0 then
        ebind (targetVectorsLoop (slice_of vectors) [] 0 []) (\<lambda>(offsetsMap, segLen, order).
        ebind (wrap ''could not marshal target vectors offsets'' (msgpack_Marshal env offsetsMap))
          (\<lambda>targetVectorsOffsets.
        if length targetVectorsOffsets > maxTargetVectorsOffsetsLength
        then Inl (FieldTooLarge ''targetVectorsOffsets'')
        else Inr (targetVectorsOffsets, of_nat (length targetVectorsOffsets), segLen, order)))
      else Inr ([], 0, 0, []))"

text \<open>Lines 754-809: the writes, in the order of the layout.\<close>

definition writeFields ::
  "ReadWriter \<Rightarrow> storobj \<Rightarrow> byte list \<Rightarrow> 32 word \<Rightarrow> byte list \<Rightarrow> 32 word \<Rightarrow> byte list
   \<Rightarrow> 32 word \<Rightarrow> byte list \<Rightarrow> 32 word \<Rightarrow> byte list \<Rightarrow> 32 word \<Rightarrow> byte list \<Rightarrow> 32 word
   \<Rightarrow> nat \<Rightarrow> string list \<Rightarrow> error + ReadWriter" where
  "writeFields rw ko idBytes vectorLength className classNameLength schema schemaLength
       meta metaLength vectorWeights vectorWeightsLength
       targetVectorsOffsets targetVectorsOffsetsLength targetVectorsSegmentLength
       targetVectorsOffsetOrder =
     ebind (WriteByte rw (MarshallerVersion ko)) (\<lambda>rw.
     ebind (WriteUint64 rw (DocID ko)) (\<lambda>rw.
     ebind (WriteByte rw 1) (\<lambda>rw.
     ebind (CopyBytesToBuffer rw idBytes) (\<lambda>rw.
     ebind (WriteUint64 rw (CreationTimeUnix (Object ko))) (\<lambda>rw.
     ebind (WriteUint64 rw (LastUpdateTimeUnix (Object ko))) (\<lambda>rw.
     ebind (WriteUint16 rw (ucast vectorLength)) (\<lambda>rw.
     ebind (writeVector rw (slice_of (Vector ko))) (\<lambda>rw.
     ebind (WriteUint16 rw (ucast classNameLength)) (\<lambda>rw.
     ebind (wrap ''Could not copy className'' (CopyBytesToBuffer rw className)) (\<lambda>rw.
     ebind (WriteUint32 rw schemaLength) (\<lambda>rw.
     ebind (wrap ''Could not copy schema'' (CopyBytesToBuffer rw schema)) (\<lambda>rw.
     ebind (WriteUint32 rw metaLength) (\<lambda>rw.
     ebind (wrap ''Could not copy meta'' (CopyBytesToBuffer rw meta)) (\<lambda>rw.
     ebind (WriteUint32 rw vectorWeightsLength) (\<lambda>rw.
     ebind (wrap ''Could not copy vectorWeights'' (CopyBytesToBuffer rw vectorWeights)) (\<lambda>rw.
     ebind (WriteUint32 rw targetVectorsOffsetsLength) (\<lambda>rw.
     ebind (if targetVectorsOffsetsLength > 0
            then wrap ''Could not copy targetVectorsOffsets''
                   (CopyBytesToBuffer rw targetVectorsOffsets)
            else Inr rw) (\<lambda>rw.
     ebind (WriteUint32 rw (of_nat targetVectorsSegmentLength)) (\<lambda>rw.
     writeTargetVectors rw (Vectors ko) targetVectorsOffsetOrder)))))))))))))))))))"

text \<open>
  Lines 743-753 and 811: the buffer of the computed length, a \<open>uint32\<close> sum, filled
  by the writes and returned.
\<close>

definition writeFrame ::
  "storobj \<Rightarrow> byte list \<Rightarrow> 32 word \<Rightarrow> byte list \<Rightarrow> 32 word \<Rightarrow> byte list \<Rightarrow> 32 word
   \<Rightarrow> byte list \<Rightarrow> 32 word \<Rightarrow> byte list \<Rightarrow> 32 word \<Rightarrow> byte list \<Rightarrow> 32 word \<Rightarrow> nat
   \<Rightarrow> string list \<Rightarrow> error + byte list" where
  "writeFrame ko idBytes vectorLength className classNameLength schema schemaLength
       meta metaLength vectorWeights vectorWeightsLength
       targetVectorsOffsets targetVectorsOffsetsLength targetVectorsSegmentLength
       targetVectorsOffsetOrder =
     (let totalBufferLength = 1 + 8 + 1 + 16 + 8 + 8 +
            2 + vectorLength * 4 +
            2 + classNameLength +
            4 + schemaLength +
            4 + metaLength +
            4 + vectorWeightsLength +
            4 + targetVectorsOffsetsLength +
            4 + (of_nat targetVectorsSegmentLength :: 32 word);
          byteBuffer = replicate (unat totalBufferLength) (0 :: byte);
          rw = NewReadWriter byteBuffer
      in
      ebind (writeFields rw ko idBytes vectorLength className classNameLength schema
               schemaLength meta metaLength vectorWeights vectorWeightsLength
               targetVectorsOffsets targetVectorsOffsetsLength targetVectorsSegmentLength
               targetVectorsOffsetOrder)
        (\<lambda>rw. Inr (Buffer rw)))"

text \<open>Lines 653-707: the checks and the three JSON regions, then the above.\<close>

definition MarshalBinary :: "env \<Rightarrow> storobj \<Rightarrow> error + byte list" where
  "MarshalBinary env ko =
     (if MarshallerVersion ko \<noteq> 1
      then Inl (UnsupportedVersion (unat (MarshallerVersion ko)))
      else
      ebind (uuid_Parse env (ID (Object ko))) (\<lambda>idBytes.
      if length (slice_of (Vector ko)) > maxVectorLength then Inl (FieldTooLarge ''vector'')
      else
      let vectorLength = (of_nat (length (slice_of (Vector ko))) :: 32 word);
          className = bytes_of (Class (Object ko))
      in
      if length className > maxClassNameLength then Inl (FieldTooLarge ''className'')
      else
      let classNameLength = (of_nat (length className) :: 32 word) in
      ebind (json_Marshal env (Properties (Object ko))) (\<lambda>schema.
      if length schema > maxSchemaLength then Inl (FieldTooLarge ''schema'')
      else
      let schemaLength = (of_nat (length schema) :: 32 word) in
      ebind (json_Marshal env (VMap (Additional (Object ko)))) (\<lambda>meta.
      if length meta > maxMetaLength then Inl (FieldTooLarge ''meta'')
      else
      let metaLength = (of_nat (length meta) :: 32 word) in
      ebind (json_Marshal env (VectorWeights (Object ko))) (\<lambda>vectorWeights.
      if length vectorWeights > maxVectorWeightsLength then Inl (FieldTooLarge ''vectorWeights'')
      else
      let vectorWeightsLength = (of_nat (length vectorWeights) :: 32 word) in
      ebind (targetVectorsPlan env (Vectors ko))
        (\<lambda>(targetVectorsOffsets, targetVectorsOffsetsLength, targetVectorsSegmentLength,
           targetVectorsOffsetOrder).
      writeFrame ko idBytes vectorLength className classNameLength schema schemaLength
        meta metaLength vectorWeights vectorWeightsLength
        targetVectorsOffsets targetVectorsOffsetsLength targetVectorsSegmentLength
        targetVectorsOffsetOrder))))))"


subsection \<open>The full decoder\<close>

text \<open>
  Lines 958-960 and 1023-1025: \<open>n\<close> times \<open>ReadUint32\<close>, stored by increasing index.
\<close>

fun readVector :: "ReadWriter \<Rightarrow> nat \<Rightarrow> error + (float32 list \<times> ReadWriter)" where
  "readVector rw 0 = Inr ([], rw)"
| "readVector rw (Suc n) =
     (case ReadUint32 rw of
        Inl e \<Rightarrow> Inl e
      | Inr (x, rw') \<Rightarrow>
          (case readVector rw' n of
             Inl e \<Rightarrow> Inl e
           | Inr (xs, rw'') \<Rightarrow> Inr (x # xs, rw'')))"

text \<open>Lines 1019-1027: the \<open>range\<close> over the decoded offsets map.\<close>

fun readTargetVectors ::
  "ReadWriter \<Rightarrow> nat \<Rightarrow> (string \<times> 32 word) list \<Rightarrow> (string \<times> float32 list) list
   \<Rightarrow> error + ((string \<times> float32 list) list \<times> ReadWriter)" where
  "readTargetVectors rw pos [] targetVectors = Inr (targetVectors, rw)"
| "readTargetVectors rw pos ((name, offset) # rest) targetVectors =
     (let rw1 = MoveBufferToAbsolutePosition rw (pos + unat offset) in
      case ReadUint16 rw1 of
        Inl e \<Rightarrow> Inl e
      | Inr (vecLen, rw2) \<Rightarrow>
          (case readVector rw2 (unat vecLen) of
             Inl e \<Rightarrow> Inl e
           | Inr (vec, rw3) \<Rightarrow>
               readTargetVectors rw3 pos rest (AList.update name vec targetVectors)))"

text \<open>Lines 1003-1034.\<close>

definition unmarshalTargetVectors ::
  "env \<Rightarrow> ReadWriter \<Rightarrow> error + ((string \<times> float32 list) list option \<times> ReadWriter)" where
  "unmarshalTargetVectors env rw =
     (if Position rw < length (Buffer rw) then
        ebind (ReadBytesFromBufferWithUint32LengthIndicator rw) (\<lambda>(targetVectorsOffsets, rw).
        ebind (ReadUint32 rw) (\<lambda>(targetVectorsSegmentLength, rw).
        let pos = Position rw in
        if length targetVectorsOffsets > 0 then
          ebind (wrap ''Could not unmarshal target vectors offset''
                   (msgpack_Unmarshal env targetVectorsOffsets)) (\<lambda>tvOffsets.
          ebind (readTargetVectors rw pos tvOffsets []) (\<lambda>(targetVectors, rw).
          Inr (Some targetVectors,
               MoveBufferToAbsolutePosition rw (pos + unat targetVectorsSegmentLength))))
        else Inr (None, rw)))
      else Inr (None, rw))"

text \<open>
  Lines 1101-1190. The receiver's \<open>Object\<close> is replaced as a whole, so its \<open>Vector\<close>
  and \<open>Vectors\<close> fields are nil afterwards.
\<close>

definition parseObject ::
  "env \<Rightarrow> storobj \<Rightarrow> string \<Rightarrow> 64 word \<Rightarrow> 64 word \<Rightarrow> string \<Rightarrow> byte list \<Rightarrow> byte list
   \<Rightarrow> byte list \<Rightarrow> PropertyExtraction option \<Rightarrow> 32 word \<Rightarrow> error + storobj" where
  "parseObject env ko uuid create update className propsB additionalB vectorWeightsB
       properties propLength =
     ebind (case properties of
              None \<Rightarrow> json_Unmarshal_map env propsB
            | Some pe \<Rightarrow>
                if propLength = 0 then json_Unmarshal_map env propsB
                else if length propsB \<ge> unat propLength
                then ebind (UnmarshalProperties env (take (unat propLength) propsB)
                              (PropStrings pe) (PropStringsList pe))
                       (\<lambda>m. Inr (Some m))
                else Inr None) (\<lambda>returnProps.
     ebind (wrap ''enrich schema datatypes'' (enrichSchemaTypes env returnProps False))
       (\<lambda>returnProps.
     ebind (if length additionalB > 0 then parse_additional env additionalB else Inr None)
       (\<lambda>additionalProperties.
     ebind (json_Unmarshal env vectorWeightsB) (\<lambda>vectorWeights.
     Inr (ko\<lparr>Object := \<lparr>Class = className, ID = uuid, CreationTimeUnix = create,
                          LastUpdateTimeUnix = update, Properties = VMap returnProps,
                          Additional = additionalProperties, VectorWeights = vectorWeights,
                          Object_Vector = None, Object_Vectors = None\<rparr>\<rparr>)))))"

text \<open>
  Lines 935-1001, on the receiver \<open>ko\<close>. \<open>data[0]\<close> and
  \<open>data[rw.Position : rw.Position+16]\<close> index the input directly.
\<close>

definition UnmarshalBinary :: "env \<Rightarrow> storobj \<Rightarrow> byte list \<Rightarrow> error + storobj" where
  "UnmarshalBinary env ko data =
     (if length data = 0 then Inl Truncated
      else
      let version = data ! 0 in
      if version \<noteq> 1 then Inl (UnsupportedVersion (unat version))
      else
      let ko = ko\<lparr>MarshallerVersion := version\<rparr>;
          rw = NewReadWriterWithPosition data 1
      in
      ebind (ReadUint64 rw) (\<lambda>(docID, rw).
      let ko = ko\<lparr>DocID := docID\<rparr>;
          rw = MoveBufferPositionForward rw 1
      in
      if Position rw + 16 > length data then Inl Truncated
      else
      ebind (uuid_FromBytes env (take 16 (drop (Position rw) data))) (\<lambda>uuidParsed.
      let rw = MoveBufferPositionForward rw 16 in
      ebind (ReadUint64 rw) (\<lambda>(createTime, rw).
      ebind (ReadUint64 rw) (\<lambda>(updateTime, rw).
      ebind (ReadUint16 rw) (\<lambda>(vectorLength, rw).
      ebind (readVector rw (unat vectorLength)) (\<lambda>(vector, rw).
      let ko = ko\<lparr>VectorLen := unat vectorLength, Vector := Some vector\<rparr> in
      ebind (ReadUint16 rw) (\<lambda>(classNameLength, rw).
      ebind (wrap ''Could not copy class name'' (CopyBytesFromBuffer rw (unat classNameLength)))
        (\<lambda>(className, rw).
      ebind (ReadUint32 rw) (\<lambda>(schemaLength, rw).
      ebind (wrap ''Could not copy schema'' (CopyBytesFromBuffer rw (unat schemaLength)))
        (\<lambda>(schema, rw).
      ebind (ReadUint32 rw) (\<lambda>(metaLength, rw).
      ebind (wrap ''Could not copy meta'' (CopyBytesFromBuffer rw (unat metaLength)))
        (\<lambda>(meta, rw).
      ebind (ReadUint32 rw) (\<lambda>(vectorWeightsLength, rw).
      ebind (wrap ''Could not copy vectorWeights''
               (CopyBytesFromBuffer rw (unat vectorWeightsLength)))
        (\<lambda>(vectorWeights, rw).
      ebind (unmarshalTargetVectors env rw) (\<lambda>(vectors, rw).
      let ko = ko\<lparr>Vectors := vectors\<rparr> in
      parseObject env ko (uuid_String env uuidParsed) createTime updateTime
        (string_of className) schema meta vectorWeights None 0))))))))))))))))"

definition FromBinary :: "env \<Rightarrow> byte list \<Rightarrow> error + storobj" where
  "FromBinary env data = UnmarshalBinary env zero_Object data"

subsection \<open>The partial decoders\<close>

text \<open>
  Lines 106-134. \<open>vecLen\<close> is a \<open>uint16\<close>, and \<open>vecLen * 4\<close> is computed at that
  width before the conversion to \<open>uint64\<close>.
\<close>

definition FromBinaryUUIDOnly :: "env \<Rightarrow> byte list \<Rightarrow> error + storobj" where
  "FromBinaryUUIDOnly env data =
     (let ko = zero_Object;
          rw = NewReadWriter data
      in
      ebind (ReadUint8 rw) (\<lambda>(version, rw).
      if version \<noteq> 1 then Inl (UnsupportedVersion (unat version))
      else
      let ko = ko\<lparr>MarshallerVersion := version\<rparr> in
      ebind (ReadUint64 rw) (\<lambda>(docID, rw).
      let ko = ko\<lparr>DocID := docID\<rparr>;
          rw = MoveBufferPositionForward rw 1
      in
      ebind (ReadBytesFromBuffer rw 16) (\<lambda>(uuidBytes, rw).
      ebind (wrap ''parse uuid'' (uuid_FromBytes env uuidBytes)) (\<lambda>uuidObj.
      let ko = ko\<lparr>Object := (Object ko)\<lparr>ID := uuid_String env uuidObj\<rparr>\<rparr>;
          rw = MoveBufferPositionForward rw 16
      in
      ebind (ReadUint16 rw) (\<lambda>(vecLen, rw).
      let rw = MoveBufferPositionForward rw (unat (vecLen * 4)) in
      ebind (ReadUint16 rw) (\<lambda>(classNameLen, rw).
      ebind (ReadBytesFromBuffer rw (unat classNameLen)) (\<lambda>(className, rw).
      Inr (ko\<lparr>Object := (Object ko)\<lparr>Class := string_of className\<rparr>\<rparr>)))))))))"

text \<open>Lines 162-165: element \<open>i\<close> from the bytes \<open>[i*4, (i+1)*4)\<close> of the body.\<close>

definition floats_of :: "nat \<Rightarrow> byte list \<Rightarrow> float32 list" where
  "floats_of n vectorBytes = map (\<lambda>i. Uint32 (take 4 (drop (i * 4) vectorBytes))) [0..<n]"

text \<open>
  Lines 210-218, the condition under which \<open>parseObject\<close> is called (\<open>&&\<close> binds
  tighter than \<open>||\<close>); 110, 117, 108, 108 are the bytes of \<open>null\<close>.
\<close>

definition needs_enrichment :: "byte list \<Rightarrow> byte list \<Rightarrow> 32 word \<Rightarrow> byte list \<Rightarrow> bool" where
  "needs_enrichment props meta vectorWeightsLength vectorWeights =
     (length props > 0 \<or>
      length meta > 0 \<or>
      (vectorWeightsLength > 0 \<and>
       \<not> (vectorWeightsLength = 4 \<and>
          vectorWeights ! 0 = 110 \<and>
          vectorWeights ! 1 = 117 \<and>
          vectorWeights ! 2 = 108 \<and>
          vectorWeights ! 3 = 108)))"

text \<open>Lines 136-241. A byte slice that stays nil is the empty list.\<close>

definition FromBinaryOptional ::
  "env \<Rightarrow> byte list \<Rightarrow> additional_Properties \<Rightarrow> PropertyExtraction option \<Rightarrow> error + storobj" where
  "FromBinaryOptional env data addProp properties =
     (let ko = zero_Object;
          rw = NewReadWriter data
      in
      ebind (ReadUint8 rw) (\<lambda>(version, rw).
      let ko = ko\<lparr>MarshallerVersion := version\<rparr> in
      if MarshallerVersion ko \<noteq> 1 then Inl (UnsupportedVersion (unat (MarshallerVersion ko)))
      else
      ebind (ReadUint64 rw) (\<lambda>(docID, rw).
      let ko = ko\<lparr>DocID := docID\<rparr>;
          rw = MoveBufferPositionForward rw 1
      in
      ebind (ReadBytesFromBuffer rw 16) (\<lambda>(uuidBytes, rw).
      ebind (wrap ''parse uuid'' (uuid_FromBytes env uuidBytes)) (\<lambda>uuidObj.
      let uuidParsed = uuid_String env uuidObj in
      ebind (ReadUint64 rw) (\<lambda>(createTime, rw).
      ebind (ReadUint64 rw) (\<lambda>(updateTime, rw).
      ebind (ReadUint16 rw) (\<lambda>(vectorLength, rw).
      let ko = ko\<lparr>VectorLen := unat vectorLength\<rparr> in
      ebind (if additional_Vector addProp
             then ebind (ReadBytesFromBuffer rw (unat vectorLength * 4)) (\<lambda>(vectorBytes, rw).
                    Inr (Some (floats_of (unat vectorLength) vectorBytes), rw))
             else Inr (None, MoveBufferPositionForward rw (unat vectorLength * 4)))
        (\<lambda>(objVector, rw).
      let ko = ko\<lparr>Object := (Object ko)\<lparr>Object_Vector := objVector\<rparr>\<rparr>;
          ko = ko\<lparr>Vector := Object_Vector (Object ko)\<rparr>
      in
      ebind (ReadUint16 rw) (\<lambda>(classNameLen, rw).
      ebind (ReadBytesFromBuffer rw (unat classNameLen)) (\<lambda>(classNameBytes, rw).
      let className = string_of classNameBytes in
      ebind (ReadUint32 rw) (\<lambda>(propLength, rw).
      ebind (if NoProps addProp
             then Inr ([], MoveBufferPositionForward rw (unat propLength))
             else ReadBytesFromBuffer rw (unat propLength)) (\<lambda>(props, rw).
      ebind (ReadUint32 rw) (\<lambda>(metaLength, rw).
      ebind (if additional_Classification addProp \<or> length (ModuleParams addProp) > 0
             then ReadBytesFromBuffer rw (unat metaLength)
             else Inr ([], MoveBufferPositionForward rw (unat metaLength))) (\<lambda>(meta, rw).
      ebind (ReadUint32 rw) (\<lambda>(vectorWeightsLength, rw).
      ebind (ReadBytesFromBuffer rw (unat vectorWeightsLength)) (\<lambda>(vectorWeights, rw).
      ebind (if length (additional_Vectors addProp) > 0
             then ebind (unmarshalTargetVectors env rw) (\<lambda>(vectors, rw).
                    let ko = ko\<lparr>Vectors := vectors\<rparr> in
                    case vectors of
                      None \<Rightarrow> Inr ko
                    | Some vs \<Rightarrow>
                        Inr (ko\<lparr>Object := (Object ko)\<lparr>Object_Vectors :=
                               Some (fold (\<lambda>(vecName, vec) m. AList.update vecName vec m) vs [])\<rparr>\<rparr>))
             else Inr ko) (\<lambda>ko.
      if needs_enrichment props meta vectorWeightsLength vectorWeights
      then wrap ''parse''
             (parseObject env ko uuidParsed createTime updateTime className props meta
                vectorWeights properties propLength)
      else Inr (ko\<lparr>Object := (Object ko)\<lparr>ID := uuidParsed, CreationTimeUnix := createTime,
                                         LastUpdateTimeUnix := updateTime,
                                         Class := className\<rparr>\<rparr>)))))))))))))))))))"

text \<open>
  Lines 1091-1096, the loop of the primary-vector path: \<open>inp[start : start+4]\<close> and
  \<open>out[i]\<close> fail when out of range.
\<close>

function vectorLoop ::
  "byte list \<Rightarrow> nat \<Rightarrow> nat \<Rightarrow> nat \<Rightarrow> float32 list \<Rightarrow> error + float32 list" where
  "vectorLoop inp start vecEnd i out =
     (if start < vecEnd then
        (if start + 4 \<le> length inp \<and> i < length out
         then vectorLoop inp (start + 4) vecEnd (i + 1)
                (out[i := Uint32 (take 4 (drop start inp))])
         else Inl Truncated)
      else Inr out)"
  by pat_completeness auto
termination
  by (relation "measure (\<lambda>(inp, start, vecEnd, i, out). vecEnd - start)") auto

text \<open>
  Lines 1036-1099. The scratch \<open>buffer\<close> is given by the elements of its backing
  array up to its capacity, so that \<open>buffer[:vecLen]\<close> is \<open>take vecLen buffer\<close>; a fresh
  \<open>make\<close> is all zero. \<open>vecLen\<close> is a \<open>uint16\<close>, and \<open>vecLen*4\<close> is computed at that
  width before the conversion to \<open>int\<close>.
\<close>

definition VectorFromBinary ::
  "env \<Rightarrow> byte list \<Rightarrow> float32 list \<Rightarrow> string \<Rightarrow> error + float32 list option" where
  "VectorFromBinary env inp buffer targetVector =
     (if length inp = 0 then Inr None
      else
      let version = inp ! 0 in
      if version \<noteq> 1 then Inl (UnsupportedVersion (unat version))
      else if targetVector \<noteq> [] then
        (let startPos = 1 + 8 + 1 + 16 + 8 + 8;
             rw = NewReadWriterWithPosition inp startPos
         in
         ebind (ReadUint16 rw) (\<lambda>(vectorLength, rw).
         let rw = MoveBufferPositionForward rw (unat vectorLength * 4) in
         ebind (ReadUint16 rw) (\<lambda>(classnameLength, rw).
         let rw = MoveBufferPositionForward rw (unat classnameLength) in
         ebind (ReadUint32 rw) (\<lambda>(schemaLength, rw).
         let rw = MoveBufferPositionForward rw (unat schemaLength) in
         ebind (ReadUint32 rw) (\<lambda>(metaLength, rw).
         let rw = MoveBufferPositionForward rw (unat metaLength) in
         ebind (ReadUint32 rw) (\<lambda>(vectorWeightsLength, rw).
         let rw = MoveBufferPositionForward rw (unat vectorWeightsLength) in
         case unmarshalTargetVectors env rw of
           Inl e \<Rightarrow> if is_panic e then Inl e else Inl (UnableToUnmarshal targetVector)
         | Inr (targetVectors, rw) \<Rightarrow>
             (case map_of (slice_of targetVectors) targetVector of
                None \<Rightarrow> Inl (NotFound targetVector)
              | Some vector \<Rightarrow> Inr (Some vector))))))))
      else if length inp < 44 then Inl Truncated
      else
      let vecLen = Uint16 (take 2 (drop 42 inp));
          out = (if length buffer \<ge> unat vecLen
                 then take (unat vecLen) buffer
                 else replicate (unat vecLen) 0);
          vecStart = 44;
          vecEnd = vecStart + unat (vecLen * 4)
      in ebind (vectorLoop inp vecStart vecEnd 0 out) (\<lambda>out. Inr (Some out)))"


subsection \<open>The bulk fetch\<close>

text \<open>
  The bucket, by its one operation used here, \<open>GetBySecondaryWithBuffer(0, key, buf)\<close>:
  the key to an error or to the stored bytes, nil (\<open>None\<close>) when there are none. The
  scratch buffer that the call takes and returns only carries capacity. The interface
  value itself may be nil, which is \<open>None\<close>.
\<close>

type_synonym bucket = "byte list \<Rightarrow> error + byte list option"

text \<open>
  Lines 340-362. \<open>out\<close> is the filled part \<open>out[:i]\<close> of the result array, so the
  counter \<open>i\<close> is \<open>length out\<close>.
\<close>

fun sequentialLoop ::
  "env \<Rightarrow> bucket \<Rightarrow> additional_Properties \<Rightarrow> PropertyExtraction option \<Rightarrow> 64 word list
   \<Rightarrow> storobj list \<Rightarrow> error + storobj list" where
  "sequentialLoop env b additional props [] out = Inr out"
| "sequentialLoop env b additional props (docID # ids) out =
     (case b (PutUint64 docID) of
        Inl e \<Rightarrow> Inl e
      | Inr None \<Rightarrow> sequentialLoop env b additional props ids out
      | Inr (Some res) \<Rightarrow>
          (case FromBinaryOptional env res additional props of
             Inl e \<Rightarrow> wrap ''unmarshal data object at position'' (Inl e)
           | Inr unmarshalled \<Rightarrow>
               sequentialLoop env b additional props ids (out @ [unmarshalled])))"

text \<open>Lines 306-363.\<close>

definition objectsByDocIDSequential ::
  "env \<Rightarrow> bucket option \<Rightarrow> 64 word list \<Rightarrow> additional_Properties \<Rightarrow> string list option
   \<Rightarrow> error + storobj list" where
  "objectsByDocIDSequential env bucket ids additional properties =
     (case bucket of
        None \<Rightarrow> Inl BucketNotFound
      | Some b \<Rightarrow>
          (let props = (case properties of
                          None \<Rightarrow> None
                        | Some ps \<Rightarrow> Some \<lparr>PropStrings = ps,
                                            PropStringsList = map (\<lambda>p. [p]) ps\<rparr>)
           in sequentialLoop env b additional props ids []))"

text \<open>
  \<open>copy(out[start:stop], objs)\<close>: as many elements as the shorter of the two has.
  An entry of \<open>out\<close> is a \<open>*Object\<close>, nil being \<open>None\<close>.
\<close>

definition copy_chunk ::
  "storobj option list \<Rightarrow> nat \<Rightarrow> nat \<Rightarrow> storobj list \<Rightarrow> storobj option list" where
  "copy_chunk out start stop objs =
     (let n = min (stop - start) (length objs)
      in take start out @ map Some (take n objs) @ drop (start + n) out)"

text \<open>
  Lines 278-297, with the first argument counting the iterations left of
  \<open>chunk < parallel\<close>. The tasks of the error group write disjoint ranges of \<open>out\<close>,
  so that the array after \<open>eg.Wait()\<close> does not depend on their interleaving; they are
  run here in the order of their chunks, and of several failing tasks the first in
  that order is reported.
\<close>

fun parallelLoop ::
  "nat \<Rightarrow> env \<Rightarrow> bucket option \<Rightarrow> 64 word list \<Rightarrow> additional_Properties \<Rightarrow> string list option
   \<Rightarrow> nat \<Rightarrow> nat \<Rightarrow> storobj option list \<Rightarrow> error + storobj option list" where
  "parallelLoop 0 env bucket ids addProp properties chunkSize chunk out = Inr out"
| "parallelLoop (Suc k) env bucket ids addProp properties chunkSize chunk out =
     (let start = chunk * chunkSize;
          stop = (if start + chunkSize > length ids then length ids else start + chunkSize)
      in
      if start \<ge> length ids then Inr out
      else
        (case objectsByDocIDSequential env bucket (take (stop - start) (drop start ids))
                addProp properties of
           Inl e \<Rightarrow> Inl e
         | Inr objs \<Rightarrow>
             parallelLoop k env bucket ids addProp properties chunkSize (chunk + 1)
               (copy_chunk out start stop objs)))"

text \<open>
  Lines 263-304. \<open>math.Ceil(float64(len(ids))/float64(parallel))\<close> is the rounded-up
  quotient of the two naturals.
\<close>

definition objectsByDocIDParallel ::
  "env \<Rightarrow> bucket option \<Rightarrow> 64 word list \<Rightarrow> additional_Properties \<Rightarrow> string list option
   \<Rightarrow> error + storobj option list" where
  "objectsByDocIDParallel env bucket ids addProp properties =
     (let parallel = 2 * GOMAXPROCS env;
          out = replicate (length ids) None;
          chunkSize = max ((length ids + parallel - 1) div parallel) 1
      in parallelLoop parallel env bucket ids addProp properties chunkSize 0 out)"

text \<open>Lines 253-261.\<close>

definition ObjectsByDocID ::
  "env \<Rightarrow> bucket option \<Rightarrow> 64 word list \<Rightarrow> additional_Properties \<Rightarrow> string list option
   \<Rightarrow> error + storobj option list" where
  "ObjectsByDocID env bucket ids additional properties =
     (if length ids = 1
      then ebind (objectsByDocIDSequential env bucket ids additional properties)
             (\<lambda>objs. Inr (map Some objs))
      else objectsByDocIDParallel env bucket ids additional properties)"

subsection \<open>The result projection\<close>

text \<open>
  Lines 418-448. \<open>asMap\<close> is the object's own map and the references are pointers,
  so clearing the classifications changes the stored properties: the object is
  returned with them.
\<close>

definition PropertiesWithAdditional :: "additional_Properties \<Rightarrow> storobj \<Rightarrow> val \<times> storobj" where
  "PropertiesWithAdditional additional ko =
     (let properties = Properties (Object ko) in
      if RefMeta additional then (properties, ko)
      else
        (case properties of
           VMap (Some asMap) \<Rightarrow>
             (let asMap' = map (\<lambda>(propName, value).
                                  case value of
                                    VMultipleRef asRefs \<Rightarrow>
                                      (propName, VMultipleRef (map (\<lambda>(beacon, c). (beacon, None)) asRefs))
                                  | _ \<Rightarrow> (propName, value)) asMap
              in (VMap (Some asMap'),
                  ko\<lparr>Object := (Object ko)\<lparr>Properties := VMap (Some asMap')\<rparr>\<rparr>))
         | _ \<Rightarrow> (properties, ko)))"

text \<open>Lines 381-390; \<open>iface.(string)\<close> panics on any other type.\<close>

definition ExplainScore :: "storobj \<Rightarrow> error + string" where
  "ExplainScore ko =
     (case Additional (Object ko) of
        None \<Rightarrow> Inr []
      | Some props \<Rightarrow>
          (case map_of props ''explainScore'' of
             None \<Rightarrow> Inr []
           | Some VNil \<Rightarrow> Inr []
           | Some (VString s) \<Rightarrow> Inr s
           | Some _ \<Rightarrow> Inl Panic))"

text \<open>Lines 504-513.\<close>

definition asVectors ::
  "(string \<times> float32 list) list option \<Rightarrow> (string \<times> float32 list) list option" where
  "asVectors inp =
     (if length (slice_of inp) > 0
      then Some (fold (\<lambda>(targetVector, v) m. AList.update targetVector v m) (slice_of inp) [])
      else None)"

text \<open>\<open>m[k]\<close> of a \<open>map[string]interface{}\<close>: the nil interface when absent.\<close>

definition index_val :: "(string \<times> val) list option \<Rightarrow> string \<Rightarrow> val" where
  "index_val m k = (case map_of (slice_of m) k of None \<Rightarrow> VNil | Some v \<Rightarrow> v)"

text \<open>The fields of \<open>search.Result\<close> that \<open>SearchResult\<close> sets.\<close>

record search_Result =
  res_ID :: string
  res_DocID :: "64 word"
  res_ClassName :: string
  res_Schema :: val
  res_Vector :: "float32 list option"
  res_Vectors :: "(string \<times> float32 list) list option"
  res_Dims :: nat
  res_Created :: "64 word"
  res_Updated :: "64 word"
  res_AdditionalProperties :: "(string \<times> val) list"
  res_ExplainScore :: string
  res_IsConsistent :: bool
  res_Tenant :: string

text \<open>
  Lines 458-502. The receiver is passed and returned: the second component is the
  object after the call, also when \<open>ExplainScore\<close> panics afterwards.
\<close>

definition SearchResult ::
  "additional_Properties \<Rightarrow> string \<Rightarrow> storobj \<Rightarrow> (error + search_Result) \<times> storobj" where
  "SearchResult additional tenant ko =
     (let (props, ko) = PropertiesWithAdditional additional ko;
          propertiesMap = (case props of VMap (Some m) \<Rightarrow> m | _ \<Rightarrow> []);
          propertiesMap = AList.update ''id'' (VUUID (ID (Object ko))) propertiesMap;
          ko = ko\<lparr>Object := (Object ko)\<lparr>Properties := VMap (Some propertiesMap)\<rparr>\<rparr>;
          additionalProperties = [];
          additionalProperties =
            (if Additional (Object ko) \<noteq> None then
               (let ap1 = (case map_of (ModuleParams additional) ''interpretation'' of
                             Some (VBool True) \<Rightarrow>
                               AList.update ''interpretation''
                                 (index_val (Additional (Object ko)) ''interpretation'')
                                 additionalProperties
                           | _ \<Rightarrow> additionalProperties);
                    ap2 = (if additional_Classification additional
                           then AList.update ''classification''
                                  (index_val (Additional (Object ko)) ''classification'') ap1
                           else ap1)
                in if Group additional
                   then AList.update ''group'' (index_val (Additional (Object ko)) ''group'') ap2
                   else ap2)
             else additionalProperties)
      in
      (ebind (ExplainScore ko) (\<lambda>explainScore.
         let additionalProperties =
               (if explainScore \<noteq> []
                then AList.update ''explainScore'' (VString explainScore) additionalProperties
                else additionalProperties)
         in Inr \<lparr>res_ID = ID (Object ko), res_DocID = DocID ko,
                 res_ClassName = Class (Object ko), res_Schema = Properties (Object ko),
                 res_Vector = Vector ko, res_Vectors = asVectors (Vectors ko),
                 res_Dims = VectorLen ko, res_Created = CreationTimeUnix (Object ko),
                 res_Updated = LastUpdateTimeUnix (Object ko),
                 res_AdditionalProperties = additionalProperties,
                 res_ExplainScore = explainScore, res_IsConsistent = IsConsistent ko,
                 res_Tenant = tenant\<rparr>),
       ko))"


subsection \<open>The layout of a version-1 frame\<close>

text \<open>
  The table in the comment of \<open>MarshalBinary\<close> (lines 619-641), as byte lists: the
  fixed head of 42 bytes, the length-prefixed regions up to the vector weights, the
  named-vector section, and the packed segment of named vectors.
\<close>

definition frame_head ::
  "8 word \<Rightarrow> 64 word \<Rightarrow> byte list \<Rightarrow> 64 word \<Rightarrow> 64 word \<Rightarrow> byte list" where
  "frame_head version docID idBytes create update =
     [version] @ PutUint64 docID @ [1] @ idBytes @ PutUint64 create @ PutUint64 update"

definition frame_body ::
  "float32 list \<Rightarrow> byte list \<Rightarrow> byte list \<Rightarrow> byte list \<Rightarrow> byte list \<Rightarrow> byte list" where
  "frame_body vec cls schema meta vw =
     PutUint16 (of_nat (length vec)) @ floats_bytes vec @
     PutUint16 (of_nat (length cls)) @ cls @
     PutUint32 (of_nat (length schema)) @ schema @
     PutUint32 (of_nat (length meta)) @ meta @
     PutUint32 (of_nat (length vw)) @ vw"

definition segment_bytes :: "(string \<times> float32 list) list \<Rightarrow> byte list" where
  "segment_bytes vs =
     concat (map (\<lambda>(name, vec). PutUint16 (of_nat (length vec)) @ floats_bytes vec) vs)"

definition frame_tail :: "byte list \<Rightarrow> byte list \<Rightarrow> byte list" where
  "frame_tail offsets seg =
     PutUint32 (of_nat (length offsets)) @ offsets @ PutUint32 (of_nat (length seg)) @ seg"

text \<open>
  The segment as the second loop of \<open>MarshalBinary\<close> writes it, name by name in the
  recorded order, and the offsets that the first loop assigns, starting from a running
  length.
\<close>

definition segment_in_order ::
  "(string \<times> float32 list) list option \<Rightarrow> string list \<Rightarrow> byte list" where
  "segment_in_order vectors names =
     concat (map (\<lambda>name. PutUint16 (of_nat (length (index_vectors vectors name)))
                          @ floats_bytes (index_vectors vectors name)) names)"

fun offsets_from :: "nat \<Rightarrow> (string \<times> float32 list) list \<Rightarrow> (string \<times> 32 word) list" where
  "offsets_from sl [] = []"
| "offsets_from sl ((name, vec) # rest) =
     (name, of_nat sl) # offsets_from (sl + (2 + 4 * length vec)) rest"

text \<open>
  What the codec needs of MessagePack on one offsets map: if the map can be encoded,
  the encoding is not empty and decodes to a map with the same entries (in any
  order).
\<close>

definition msgpack_faithful :: "env \<Rightarrow> (string \<times> 32 word) list \<Rightarrow> bool" where
  "msgpack_faithful env m =
     (case msgpack_Marshal env m of
        Inl e \<Rightarrow> True
      | Inr b \<Rightarrow>
          b \<noteq> [] \<and>
          (case msgpack_Unmarshal env b of
             Inl e \<Rightarrow> False
           | Inr m' \<Rightarrow> distinct (map fst m') \<and> set m' = set m))"

text \<open>
  The frame of an object, given what the collaborators return for its parts: the 16
  bytes of its id, the JSON of its properties, of its additional properties and of its
  vector weights, and the MessagePack of its offsets map (nothing when the object has
  no named vectors).
\<close>

definition encoder_parts ::
  "env \<Rightarrow> storobj \<Rightarrow> byte list \<Rightarrow> byte list \<Rightarrow> byte list \<Rightarrow> byte list \<Rightarrow> byte list \<Rightarrow> bool" where
  "encoder_parts env ko idBytes schema meta vw offs =
     (uuid_Parse env (ID (Object ko)) = Inr idBytes \<and>
      json_Marshal env (Properties (Object ko)) = Inr schema \<and>
      json_Marshal env (VMap (Additional (Object ko))) = Inr meta \<and>
      json_Marshal env (VectorWeights (Object ko)) = Inr vw \<and>
      (if slice_of (Vectors ko) = [] then offs = []
       else msgpack_Marshal env (offsets_from 0 (slice_of (Vectors ko))) = Inr offs))"

definition frame_of ::
  "storobj \<Rightarrow> byte list \<Rightarrow> byte list \<Rightarrow> byte list \<Rightarrow> byte list \<Rightarrow> byte list \<Rightarrow> byte list" where
  "frame_of ko idBytes schema meta vw offs =
     frame_head 1 (DocID ko) idBytes (CreationTimeUnix (Object ko))
       (LastUpdateTimeUnix (Object ko))
     @ frame_body (slice_of (Vector ko)) (bytes_of (Class (Object ko))) schema meta vw
     @ frame_tail offs (segment_bytes (slice_of (Vectors ko)))"

subsection \<open>Stand-ins for the collaborators, and sample objects\<close>

text \<open>
  For the worked examples: an environment whose collaborators are defined on the few
  values that the examples use (one UUID, a handful of JSON documents and MessagePack
  maps, enrichment that changes nothing, one processor), and an object of class
  \<open>Thing\<close> with doc-id 42, times 1000 and 2000, no properties and no named vectors,
  around a given primary vector. \<open>one_f32\<close> is the bit pattern of \<open>1.0\<close>.
\<close>

definition demo_id :: string where
  "demo_id = ''11111111-1111-1111-1111-111111111111''"

definition null_bytes :: "byte list" where
  "null_bytes = [110, 117, 108, 108]"

definition demo_json_Marshal :: "val \<Rightarrow> error + byte list" where
  "demo_json_Marshal v =
     (if v = VNil \<or> v = VMap None then Inr (bytes_of ''null'')
      else if v = VMap (Some []) then Inr (bytes_of ''{}'')
      else if v = VMap (Some [(''name'', VString ''a'')])
      then Inr (bytes_of (''{'' @ [CHR 0x22] @ ''name'' @ [CHR 0x22] @ '':''
                           @ [CHR 0x22] @ ''a'' @ [CHR 0x22] @ ''}''))
      else Inl (External ''unsupported value''))"

definition demo_json_Unmarshal_map :: "byte list \<Rightarrow> error + (string \<times> val) list option" where
  "demo_json_Unmarshal_map b =
     (if b = bytes_of ''null'' then Inr None
      else if b = bytes_of ''{}'' then Inr (Some [])
      else if b = bytes_of (''{'' @ [CHR 0x22] @ ''name'' @ [CHR 0x22] @ '':''
                           @ [CHR 0x22] @ ''a'' @ [CHR 0x22] @ ''}'')
      then Inr (Some [(''name'', VString ''a'')])
      else Inl MalformedJSON)"

definition demo_msgpack_Marshal :: "(string \<times> 32 word) list \<Rightarrow> error + byte list" where
  "demo_msgpack_Marshal m =
     (if m = [(''a'', 0), (''b'', 6)]
      then Inr [0x82, 0xA1, 0x61, 0xCE, 0, 0, 0, 0, 0xA1, 0x62, 0xCE, 0, 0, 0, 6]
      else if m = [([], 0)] then Inr [0x81, 0xA0, 0xCE, 0, 0, 0, 0]
      else Inl (External ''unsupported map''))"

definition demo_msgpack_Unmarshal :: "byte list \<Rightarrow> error + (string \<times> 32 word) list" where
  "demo_msgpack_Unmarshal b =
     (if b = [0x82, 0xA1, 0x61, 0xCE, 0, 0, 0, 0, 0xA1, 0x62, 0xCE, 0, 0, 0, 6]
      then Inr [(''b'', 6), (''a'', 0)]
      else if b = [0x81, 0xA0, 0xCE, 0, 0, 0, 0] then Inr [([], 0)]
      else Inl (External ''unsupported encoding''))"

definition demo_env :: env where
  "demo_env = \<lparr>
     uuid_Parse = (\<lambda>s. if s = demo_id then Inr (replicate 16 17) else Inl MalformedUUID),
     uuid_FromBytes = (\<lambda>b. if length b = 16 then Inr b else Inl MalformedUUID),
     uuid_String = (\<lambda>b. if b = replicate 16 17 then demo_id else []),
     json_Marshal = demo_json_Marshal,
     json_Unmarshal = (\<lambda>b. if b = bytes_of ''null'' then Inr VNil else Inl MalformedJSON),
     json_Unmarshal_map = demo_json_Unmarshal_map,
     parse_additional = demo_json_Unmarshal_map,
     UnmarshalProperties = (\<lambda>b ps pl. if b = null_bytes then Inr [] else Inl MalformedJSON),
     enrichSchemaTypes = (\<lambda>m byReference. Inr m),
     msgpack_Marshal = demo_msgpack_Marshal,
     msgpack_Unmarshal = demo_msgpack_Unmarshal,
     GOMAXPROCS = 1\<rparr>"

definition demo_object :: "float32 list \<Rightarrow> storobj" where
  "demo_object vec = \<lparr>MarshallerVersion = 1,
     Object = \<lparr>Class = ''Thing'', ID = demo_id, CreationTimeUnix = 1000,
                LastUpdateTimeUnix = 2000, Properties = VNil, Additional = None,
                VectorWeights = VNil, Object_Vector = None, Object_Vectors = None\<rparr>,
     Vector = Some vec, VectorLen = length vec, BelongsToNode = [], BelongsToShard = [],
     IsConsistent = False, DocID = 42, Vectors = None\<rparr>"

definition one_f32 :: float32 where
  "one_f32 = 0x3F800000"

lemma le_bytes_2:
  "le_bytes 2 v = [of_nat (v mod 256), of_nat (v div 256 mod 256)]"
proof -
  have "le_bytes (Suc (Suc 0)) v = [of_nat (v mod 256), of_nat (v div 256 mod 256)]"
    by simp
  then show ?thesis by (simp add: numeral_2_eq_2)
qed

lemma le_bytes_4:
  "le_bytes 4 v = [of_nat (v mod 256), of_nat (v div 256 mod 256),
                   of_nat (v div 65536 mod 256), of_nat (v div 16777216 mod 256)]"
proof -
  have "le_bytes (Suc (Suc (Suc (Suc 0)))) v
          = [of_nat (v mod 256), of_nat (v div 256 mod 256),
             of_nat (v div 65536 mod 256), of_nat (v div 16777216 mod 256)]"
    by (simp add: div_mult2_eq[symmetric])
  moreover have "(4::nat) = Suc (Suc (Suc (Suc 0)))" by simp
  ultimately show ?thesis by metis
qed

definition big_object :: storobj where
  "big_object = demo_object (replicate 16384 one_f32)"

definition big_frame :: "byte list" where
  "big_frame = frame_of big_object (replicate 16 17) null_bytes null_bytes null_bytes []"

text \<open>
  A bucket that holds, under every doc-id but 3, the frame of such an object with an
  empty vector (\<open>small_frame\<close>), and nothing under 3; the mask with nothing set; and
  the object that the selective decoder makes of \<open>small_frame d\<close> under that mask.
\<close>

definition small_frame :: "64 word \<Rightarrow> byte list" where
  "small_frame d = frame_head 1 d (replicate 16 17) 1000 2000
     @ frame_body [] (bytes_of ''Thing'') null_bytes null_bytes null_bytes
     @ frame_tail [] []"

definition demo_bucket :: bucket where
  "demo_bucket key = (if Uint64 key = 3 then Inr None else Inr (Some (small_frame (Uint64 key))))"

definition default_mask :: additional_Properties where
  "default_mask = \<lparr>additional_Vector = False, NoProps = False,
     additional_Classification = False, ModuleParams = [], additional_Vectors = [],
     RefMeta = False, Group = False\<rparr>"

definition fetched :: "64 word \<Rightarrow> storobj" where
  "fetched d = \<lparr>MarshallerVersion = 1,
     Object = \<lparr>Class = ''Thing'', ID = demo_id, CreationTimeUnix = 1000,
                LastUpdateTimeUnix = 2000, Properties = VMap (Some []), Additional = None,
                VectorWeights = VNil, Object_Vector = None, Object_Vectors = None\<rparr>,
     Vector = None, VectorLen = 0, BelongsToNode = [], BelongsToShard = [],
     IsConsistent = False, DocID = d, Vectors = None\<rparr>"

declare vectorLoop.simps [simp del]

section \<open>Basic facts\<close>

lemma ebind_Inl [simp]: "ebind (Inl e) f = Inl e"
  by (simp add: ebind_def)

lemma ebind_Inr [simp]: "ebind (Inr x) f = f x"
  by (simp add: ebind_def)

lemma ebind_weak_cong: "m = m' \<Longrightarrow> ebind m f = ebind m' f"
  by simp

lemma ebind_eq_Inr: "ebind m f = Inr y \<longleftrightarrow> (\<exists>x. m = Inr x \<and> f x = Inr y)"
  by (cases m) simp_all

lemma wrap_Inr [simp]: "wrap msg (Inr x) = Inr x"
  by (simp add: wrap_def)

lemma wrap_Truncated [simp]: "wrap msg (Inl Truncated) = Inl Truncated"
  by (simp add: wrap_def is_panic_def)

lemma wrap_eq_Inr [simp]: "wrap msg r = Inr x \<longleftrightarrow> r = Inr x"
  by (cases r) (simp_all add: wrap_def)

lemma length_le_bytes [simp]: "length (le_bytes k v) = k"
  by (induction k arbitrary: v) simp_all

lemma le_nat_le_bytes: "le_nat (le_bytes k v) = v mod 256 ^ k"
proof (induction k arbitrary: v)
  case 0
  then show ?case by simp
next
  case (Suc k)
  have "unat (of_nat (v mod 256) :: byte) = v mod 256"
    by (simp add: unat_of_nat)
  then show ?case
    using Suc[of "v div 256"] by (simp add: mod_mult2_eq)
qed

lemma Uint16_PutUint16 [simp]: "Uint16 (PutUint16 w) = w"
  using unsigned_less[of w, where ?'a=nat]
  by (simp add: Uint16_def PutUint16_def le_nat_le_bytes)

lemma Uint32_PutUint32 [simp]: "Uint32 (PutUint32 w) = w"
  using unsigned_less[of w, where ?'a=nat]
  by (simp add: Uint32_def PutUint32_def le_nat_le_bytes)

lemma Uint64_PutUint64 [simp]: "Uint64 (PutUint64 w) = w"
  using unsigned_less[of w, where ?'a=nat]
  by (simp add: Uint64_def PutUint64_def le_nat_le_bytes)

lemma length_PutUint [simp]:
  "length (PutUint16 a) = 2" "length (PutUint32 b) = 4" "length (PutUint64 c) = 8"
  by (simp_all add: PutUint16_def PutUint32_def PutUint64_def)

lemma length_floats_bytes [simp]: "length (floats_bytes vec) = 4 * length vec"
  by (induction vec) (simp_all add: floats_bytes_def)

lemma string_of_bytes_of [simp]: "string_of (bytes_of s) = s"
  by (induction s) (simp_all add: string_of_def bytes_of_def unat_of_nat)

lemma length_bytes_of [simp]: "length (bytes_of s) = length s"
  by (simp add: bytes_of_def)

lemma ReadBytesFromBuffer_at [simp]:
  "ReadBytesFromBuffer \<lparr>Position = p, Buffer = b\<rparr> n =
     (if p + n \<le> length b then Inr (take n (drop p b), \<lparr>Position = p + n, Buffer = b\<rparr>)
      else Inl Truncated)"
  by (simp add: ReadBytesFromBuffer_def MoveBufferPositionForward_def)

lemma MoveBufferPositionForward_at [simp]:
  "MoveBufferPositionForward \<lparr>Position = p, Buffer = b\<rparr> n = \<lparr>Position = p + n, Buffer = b\<rparr>"
  by (simp add: MoveBufferPositionForward_def)

lemma MoveBufferToAbsolutePosition_at [simp]:
  "MoveBufferToAbsolutePosition \<lparr>Position = p, Buffer = b\<rparr> n = \<lparr>Position = n, Buffer = b\<rparr>"
  by (simp add: MoveBufferToAbsolutePosition_def)

lemma unat_of_nat16 [simp]: "n \<le> 65535 \<Longrightarrow> unat (of_nat n :: 16 word) = n"
  by (simp add: unat_of_nat)

lemma unat_of_nat32 [simp]: "n \<le> 4294967295 \<Longrightarrow> unat (of_nat n :: 32 word) = n"
  by (simp add: unat_of_nat)

subsection \<open>The writes of the encoder as one write\<close>

lemma put_put:
  "ebind (CopyBytesToBuffer rw a) (\<lambda>rw'. ebind (CopyBytesToBuffer rw' b) f)
     = ebind (CopyBytesToBuffer rw (a @ b)) f"
proof -
  let ?p = "Position rw" and ?B = "Buffer rw"
  consider (ok) "?p + length a + length b \<le> length ?B"
    | (a_only) "?p + length a \<le> length ?B" "\<not> ?p + length a + length b \<le> length ?B"
    | (none) "\<not> ?p + length a \<le> length ?B"
    by linarith
  then show ?thesis
  proof cases
    case ok
    then have "take (?p + length a) (take ?p ?B @ a @ drop (?p + length a) ?B) = take ?p ?B @ a"
      by simp
    moreover have "drop (?p + length a + length b) (take ?p ?B @ a @ drop (?p + length a) ?B)
                     = drop (?p + length a + length b) ?B"
      using ok by (simp add: add.commute add.left_commute)
    ultimately show ?thesis
      using ok by (simp add: CopyBytesToBuffer_def add.assoc)
  next
    case a_only
    then show ?thesis by (simp add: CopyBytesToBuffer_def add.assoc)
  next
    case none
    then show ?thesis by (simp add: CopyBytesToBuffer_def add.assoc)
  qed
qed

lemma ebind_Inr_id [simp]: "ebind m Inr = m"
  by (cases m) simp_all

lemma case_sum_ebind: "(case m of Inl e \<Rightarrow> Inl e | Inr x \<Rightarrow> f x) = ebind m f"
  by (simp add: ebind_def)

lemma put_Inr_bounds:
  "CopyBytesToBuffer rw a = Inr rw' \<Longrightarrow> Position rw' \<le> length (Buffer rw')"
  by (auto simp add: CopyBytesToBuffer_def split: if_splits)

lemma put_then:
  assumes "\<And>rw'. Position rw' \<le> length (Buffer rw') \<Longrightarrow> g rw' = ebind (CopyBytesToBuffer rw' b) f"
  shows "ebind (CopyBytesToBuffer rw a) g = ebind (CopyBytesToBuffer rw (a @ b)) f"
proof (cases "CopyBytesToBuffer rw a")
  case (Inl e)
  then show ?thesis
    using put_put[of rw a b f] by simp
next
  case (Inr rw')
  then show ?thesis
    using put_put[of rw a b f] assms[OF put_Inr_bounds[OF Inr]] by simp
qed

lemma wrap_put [simp]: "wrap msg (CopyBytesToBuffer rw b) = CopyBytesToBuffer rw b"
  by (simp add: CopyBytesToBuffer_def)

lemma writeVector_put:
  "Position rw \<le> length (Buffer rw) \<Longrightarrow> writeVector rw v = CopyBytesToBuffer rw (floats_bytes v)"
proof (induction v arbitrary: rw)
  case Nil
  then show ?case by (simp add: floats_bytes_def CopyBytesToBuffer_def)
next
  case (Cons x xs)
  have "writeVector rw (x # xs) = ebind (CopyBytesToBuffer rw (PutUint32 x)) (\<lambda>rw'. writeVector rw' xs)"
    by (simp add: case_sum_ebind WriteUint32_def)
  also have "\<dots> = ebind (CopyBytesToBuffer rw (PutUint32 x @ floats_bytes xs)) Inr"
    by (rule put_then) (simp add: Cons.IH)
  finally show ?case by (simp add: floats_bytes_def)
qed

lemma writeTargetVectors_put:
  "Position rw \<le> length (Buffer rw) \<Longrightarrow>
   writeTargetVectors rw vectors names = CopyBytesToBuffer rw (segment_in_order vectors names)"
proof (induction names arbitrary: rw)
  case Nil
  then show ?case by (simp add: segment_in_order_def CopyBytesToBuffer_def)
next
  case (Cons name names)
  let ?vec = "index_vectors vectors name"
  have "writeTargetVectors rw vectors (name # names)
          = ebind (CopyBytesToBuffer rw (PutUint16 (of_nat (length ?vec))))
              (\<lambda>rw1. ebind (writeVector rw1 ?vec) (\<lambda>rw2. writeTargetVectors rw2 vectors names))"
    unfolding ebind_def by (simp add: WriteUint16_def Let_def)
  also have "\<dots> = ebind (CopyBytesToBuffer rw (PutUint16 (of_nat (length ?vec)) @ floats_bytes ?vec))
                        (\<lambda>rw2. writeTargetVectors rw2 vectors names)"
    by (rule put_then) (simp add: writeVector_put)
  also have "\<dots> = ebind (CopyBytesToBuffer rw ((PutUint16 (of_nat (length ?vec)) @ floats_bytes ?vec)
                                 @ segment_in_order vectors names)) Inr"
    by (rule put_then) (simp add: Cons.IH)
  finally show ?case by (simp add: segment_in_order_def)
qed

lemma put_then_put:
  "ebind (CopyBytesToBuffer rw a) (\<lambda>rw'. ebind (CopyBytesToBuffer rw' b) f)
     = ebind (CopyBytesToBuffer rw (a @ b)) f"
  by (rule put_put)

lemma put_then_wrap:
  "ebind (CopyBytesToBuffer rw a) (\<lambda>rw'. ebind (wrap msg (CopyBytesToBuffer rw' b)) f)
     = ebind (CopyBytesToBuffer rw (a @ b)) f"
  by (rule put_then) simp

lemma put_then_put_last:
  "ebind (CopyBytesToBuffer rw a) (\<lambda>rw'. CopyBytesToBuffer rw' b) = CopyBytesToBuffer rw (a @ b)"
  using put_then[of "\<lambda>rw'. CopyBytesToBuffer rw' b" b Inr rw a] by simp

lemma put_Nil_id:
  "Position rw \<le> length (Buffer rw) \<Longrightarrow> CopyBytesToBuffer rw [] = Inr rw"
  by (cases rw) (simp add: CopyBytesToBuffer_def)

lemma put_then_writeVector:
  "ebind (CopyBytesToBuffer rw a) (\<lambda>rw'. ebind (writeVector rw' v) f)
     = ebind (CopyBytesToBuffer rw (a @ floats_bytes v)) f"
  by (rule put_then) (simp add: writeVector_put)

lemma put_then_optional:
  assumes "c \<longleftrightarrow> b \<noteq> []"
  shows "ebind (CopyBytesToBuffer rw a)
           (\<lambda>rw'. ebind (if c then wrap msg (CopyBytesToBuffer rw' b) else Inr rw') f)
         = ebind (CopyBytesToBuffer rw (a @ b)) f"
  by (rule put_then) (use assms in \<open>auto simp add: put_Nil_id\<close>)

lemma put_then_writeTargetVectors:
  "ebind (CopyBytesToBuffer rw a) (\<lambda>rw'. writeTargetVectors rw' vectors names)
     = CopyBytesToBuffer rw (a @ segment_in_order vectors names)"
  using put_then[of "\<lambda>rw'. writeTargetVectors rw' vectors names" "segment_in_order vectors names" Inr rw a]
  by (simp add: writeTargetVectors_put)

lemma writeFields_put:
  assumes "offsLen > 0 \<longleftrightarrow> offs \<noteq> []"
  shows "writeFields rw ko idBytes vl cls cl schema sl meta ml vw vwl offs offsLen segLen order
     = CopyBytesToBuffer rw
         ([MarshallerVersion ko] @ PutUint64 (DocID ko) @ [1] @ idBytes
          @ PutUint64 (CreationTimeUnix (Object ko)) @ PutUint64 (LastUpdateTimeUnix (Object ko))
          @ PutUint16 (ucast vl) @ floats_bytes (slice_of (Vector ko))
          @ PutUint16 (ucast cl) @ cls @ PutUint32 sl @ schema @ PutUint32 ml @ meta
          @ PutUint32 vwl @ vw @ PutUint32 offsLen @ offs @ PutUint32 (of_nat segLen)
          @ segment_in_order (Vectors ko) order)"
  unfolding writeFields_def WriteByte_def WriteUint16_def WriteUint32_def WriteUint64_def
  by (simp only: put_then_put put_then_wrap put_then_writeVector put_then_optional[OF assms]
        put_then_writeTargetVectors put_then_put_last append_assoc)

lemma ucast_of_nat_32_16: "n \<le> 65535 \<Longrightarrow> (ucast (of_nat n :: 32 word) :: 16 word) = of_nat n"
proof -
  assume n: "n \<le> 65535"
  have "(ucast (of_nat n :: 32 word) :: 16 word) = of_nat (unat (of_nat n :: 32 word))"
    by (rule of_nat_unat[symmetric])
  also have "unat (of_nat n :: 32 word) = n"
    using n by simp
  finally show ?thesis .
qed

lemma writeFrame_eq:
  fixes ko idBytes cls schema meta vw offs order
  defines "vec \<equiv> slice_of (Vector ko)"
  defines "F \<equiv> frame_head (MarshallerVersion ko) (DocID ko) idBytes
                  (CreationTimeUnix (Object ko)) (LastUpdateTimeUnix (Object ko))
               @ frame_body vec cls schema meta vw
               @ frame_tail offs (segment_in_order (Vectors ko) order)"
  assumes "length idBytes = 16" "length vec \<le> 65535" "length cls \<le> 65535" "length schema \<le> 4294967295"
    "length meta \<le> 4294967295" "length vw \<le> 4294967295" "length offs \<le> 4294967295"
    "length (segment_in_order (Vectors ko) order) = segLen" "segLen \<le> 4294967295"
  shows "writeFrame ko idBytes (of_nat (length vec)) cls (of_nat (length cls))
           schema (of_nat (length schema)) meta (of_nat (length meta)) vw (of_nat (length vw))
           offs (of_nat (length offs)) segLen order
         = (if length F \<le> 4294967295 then Inr F else Inl Truncated)"
proof -
  let ?T = "1 + 8 + 1 + 16 + 8 + 8 + 2 + (of_nat (length vec) :: 32 word) * 4 + 2 + of_nat (length cls)
            + 4 + of_nat (length schema) + 4 + of_nat (length meta) + 4 + of_nat (length vw)
            + 4 + of_nat (length offs) + 4 + (of_nat segLen :: 32 word)"
  have lenF: "length F = 66 + 4 * length vec + length cls + length schema
                + length meta + length vw + length offs + segLen"
    using assms by (simp add: frame_head_def frame_body_def frame_tail_def)
  have T: "?T = of_nat (length F)"
    unfolding lenF by simp
  have uT: "unat ?T = length F mod 4294967296"
    unfolding T by (simp add: unat_of_nat)
  have le: "length F \<le> unat ?T \<longleftrightarrow> length F \<le> 4294967295"
  proof (cases "length F < 4294967296")
    case True
    then show ?thesis unfolding uT by simp
  next
    case False
    have "length F mod 4294967296 < 4294967296"
      by (rule mod_less_divisor) simp
    with False show ?thesis unfolding uT by linarith
  qed
  have eq: "length F \<le> 4294967295 \<Longrightarrow> unat ?T = length F"
    unfolding uT by simp
  have W: "writeFields rw ko idBytes (of_nat (length vec)) cls (of_nat (length cls))
           schema (of_nat (length schema)) meta (of_nat (length meta)) vw (of_nat (length vw))
           offs (of_nat (length offs)) segLen order = CopyBytesToBuffer rw F" for rw
  proof -
    have "(of_nat (length offs) :: 32 word) > 0 \<longleftrightarrow> offs \<noteq> []"
      using assms by (simp add: word_less_nat_alt)
    then show ?thesis
      using assms
      by (simp add: writeFields_put F_def frame_head_def frame_body_def frame_tail_def
          ucast_of_nat_32_16 vec_def)
  qed
  show ?thesis
    unfolding writeFrame_def Let_def W
    using le eq by (auto simp add: CopyBytesToBuffer_def NewReadWriter_def)
qed

subsection \<open>The named-vector plan of the encoder\<close>

lemma length_segment_bytes_Cons [simp]:
  "length (segment_bytes ((name, vec) # rest)) = 2 + 4 * length vec + length (segment_bytes rest)"
  by (simp add: segment_bytes_def)

lemma segment_bytes_Nil [simp]: "segment_bytes [] = []"
  by (simp add: segment_bytes_def)

lemma segment_bytes_append [simp]:
  "segment_bytes (xs @ ys) = segment_bytes xs @ segment_bytes ys"
  by (simp add: segment_bytes_def)

lemma update_fresh: "k \<notin> fst ` set al \<Longrightarrow> AList.update k v al = al @ [(k, v)]"
  by (induction al) auto

lemma fst_offsets_from [simp]: "map fst (offsets_from sl vs) = map fst vs"
  by (induction sl vs rule: offsets_from.induct) simp_all

lemma targetVectorsLoop_Inr_iff:
  assumes "distinct (map fst vs)" "fst ` set om \<inter> fst ` set vs = {}"
  shows "targetVectorsLoop vs om sl ord = Inr r \<longleftrightarrow>
           (\<forall>vec \<in> snd ` set vs. length vec \<le> 65535) \<and>
           (vs \<noteq> [] \<longrightarrow> sl + length (segment_bytes vs) \<le> 4294967295) \<and>
           r = (om @ offsets_from sl vs, sl + length (segment_bytes vs), ord @ map fst vs)"
  using assms
proof (induction vs arbitrary: om sl ord)
  case Nil
  then show ?case by auto
next
  case (Cons a vs)
  obtain name vec where a: "a = (name, vec)" by (cases a)
  have fresh: "name \<notin> fst ` set om"
    using Cons.prems a by auto
  have d: "distinct (map fst vs)"
    using Cons.prems by simp
  have disj: "fst ` set (om @ [(name, of_nat sl)]) \<inter> fst ` set vs = {}"
    using Cons.prems a by auto
  define sl' where "sl' = sl + (2 + 4 * length vec)"
  note IH = Cons.IH[OF d disj, of sl' "ord @ [name]"]
  have step: "targetVectorsLoop (a # vs) om sl ord =
      (if length vec > 65535 then Inl (FieldTooLarge ''vector'')
       else if sl' > 4294967295 then Inl (FieldTooLarge ''targetVectorsSegmentLength'')
       else targetVectorsLoop vs (om @ [(name, of_nat sl)]) sl' (ord @ [name]))"
    unfolding a sl'_def
    by (simp add: update_fresh[OF fresh] Let_def maxVectorLength_def
          maxTargetVectorsSegmentLength_def)
  have len: "sl + length (segment_bytes (a # vs)) = sl' + length (segment_bytes vs)"
    unfolding a sl'_def by simp
  have offs: "om @ offsets_from sl (a # vs) = (om @ [(name, of_nat sl)]) @ offsets_from sl' vs"
    unfolding a sl'_def by simp
  have ord: "ord @ map fst (a # vs) = (ord @ [name]) @ map fst vs"
    unfolding a by simp
  have all: "(\<forall>v \<in> snd ` set (a # vs). length v \<le> 65535)
               \<longleftrightarrow> length vec \<le> 65535 \<and> (\<forall>v \<in> snd ` set vs. length v \<le> 65535)"
    unfolding a by simp
  show ?case
  proof (cases "length vec > 65535 \<or> sl' > 4294967295")
    case True
    then show ?thesis
      unfolding step len offs ord all by auto
  next
    case False
    then have "targetVectorsLoop (a # vs) om sl ord
                 = targetVectorsLoop vs (om @ [(name, of_nat sl)]) sl' (ord @ [name])"
      unfolding step by simp
    then show ?thesis
      unfolding len offs ord all using False IH by (cases "vs = []") auto
  qed
qed

lemma index_vectors_distinct:
  "distinct (map fst vs) \<Longrightarrow> (name, vec) \<in> set vs \<Longrightarrow> index_vectors (Some vs) name = vec"
  by (simp add: index_vectors_def slice_of_def)

lemma segment_in_order_sub:
  assumes "distinct (map fst vs)" "set ws \<subseteq> set vs"
  shows "segment_in_order (Some vs) (map fst ws) = segment_bytes ws"
  using assms(2)
proof (induction ws)
  case Nil
  then show ?case by (simp add: segment_in_order_def)
next
  case (Cons a ws)
  obtain name vec where a: "a = (name, vec)" by (cases a)
  have "index_vectors (Some vs) name = vec"
    using Cons.prems a by (intro index_vectors_distinct[OF assms(1)]) simp
  moreover have "segment_in_order (Some vs) (map fst ws) = segment_bytes ws"
    using Cons by simp
  ultimately show ?case
    unfolding a by (simp add: segment_in_order_def segment_bytes_def)
qed

lemma segment_in_order_all:
  assumes "distinct (map fst (slice_of vectors))"
  shows "segment_in_order vectors (map fst (slice_of vectors)) = segment_bytes (slice_of vectors)"
proof (cases vectors)
  case None
  then show ?thesis by (simp add: slice_of_def segment_in_order_def)
next
  case (Some vs)
  then show ?thesis
    using segment_in_order_sub[of vs vs] assms by (simp add: slice_of_def)
qed

lemma targetVectorsPlan_Inr_iff:
  assumes "distinct (map fst (slice_of vectors))"
  shows "targetVectorsPlan env vectors = Inr r \<longleftrightarrow>
           (if slice_of vectors = [] then r = ([], 0, 0, [])
            else (\<forall>vec \<in> snd ` set (slice_of vectors). length vec \<le> 65535) \<and>
                 length (segment_bytes (slice_of vectors)) \<le> 4294967295 \<and>
                 (\<exists>offs. msgpack_Marshal env (offsets_from 0 (slice_of vectors)) = Inr offs \<and>
                         length offs \<le> 4294967295 \<and>
                         r = (offs, of_nat (length offs), length (segment_bytes (slice_of vectors)),
                              map fst (slice_of vectors))))"
proof (cases "slice_of vectors = []")
  case True
  then show ?thesis by (auto simp add: targetVectorsPlan_def)
next
  case False
  have L: "targetVectorsLoop (slice_of vectors) [] 0 [] = Inr q \<longleftrightarrow>
           (\<forall>vec \<in> snd ` set (slice_of vectors). length vec \<le> 65535) \<and>
           length (segment_bytes (slice_of vectors)) \<le> 4294967295 \<and>
           q = (offsets_from 0 (slice_of vectors), length (segment_bytes (slice_of vectors)),
                map fst (slice_of vectors))" for q
    using targetVectorsLoop_Inr_iff[OF assms, of "[]" 0 "[]" q] False by simp
  show ?thesis
  proof (cases "msgpack_Marshal env (offsets_from 0 (slice_of vectors))")
    case (Inl e)
    then show ?thesis
      using False by (auto simp add: targetVectorsPlan_def ebind_eq_Inr L)
  next
    case (Inr offs)
    then show ?thesis
      using False
      by (auto simp add: targetVectorsPlan_def ebind_eq_Inr L maxTargetVectorsOffsetsLength_def)
  qed
qed

subsection \<open>When the encoder succeeds, and with what\<close>

lemma length_frame_of:
  "length (frame_of ko idBytes schema meta vw offs) =
     50 + length idBytes + 4 * length (slice_of (Vector ko)) + length (Class (Object ko))
     + length schema + length meta + length vw + length offs
     + length (segment_bytes (slice_of (Vectors ko)))"
  by (simp add: frame_of_def frame_head_def frame_body_def frame_tail_def)

lemma writeFrame_of:
  assumes "distinct (map fst (slice_of (Vectors ko)))" "length idBytes = 16"
    "length (slice_of (Vector ko)) \<le> 65535" "length (Class (Object ko)) \<le> 65535"
    "MarshallerVersion ko = 1"
    "length schema \<le> 4294967295" "length meta \<le> 4294967295" "length vw \<le> 4294967295"
    "length offs \<le> 4294967295"
    "length (segment_bytes (slice_of (Vectors ko))) \<le> 4294967295"
  shows "writeFrame ko idBytes (of_nat (length (slice_of (Vector ko))))
           (bytes_of (Class (Object ko))) (of_nat (length (bytes_of (Class (Object ko)))))
           schema (of_nat (length schema)) meta (of_nat (length meta)) vw (of_nat (length vw))
           offs (of_nat (length offs)) (length (segment_bytes (slice_of (Vectors ko))))
           (map fst (slice_of (Vectors ko)))
         = (if length (frame_of ko idBytes schema meta vw offs) \<le> 4294967295
            then Inr (frame_of ko idBytes schema meta vw offs) else Inl Truncated)"
  using writeFrame_eq[of idBytes ko "bytes_of (Class (Object ko))" schema meta vw offs
          "map fst (slice_of (Vectors ko))" "length (segment_bytes (slice_of (Vectors ko)))"]
    assms
  by (simp add: segment_in_order_all frame_of_def)

lemma MarshalBinary_Inr_iff:
  assumes "distinct (map fst (slice_of (Vectors ko)))"
    and "\<And>u. uuid_Parse env (ID (Object ko)) = Inr u \<Longrightarrow> length u = 16"
  shows "MarshalBinary env ko = Inr bs \<longleftrightarrow>
           (\<exists>idBytes schema meta vw offs.
              MarshallerVersion ko = 1 \<and>
              encoder_parts env ko idBytes schema meta vw offs \<and>
              length (slice_of (Vector ko)) \<le> 65535 \<and>
              length (Class (Object ko)) \<le> 65535 \<and>
              (\<forall>vec \<in> snd ` set (slice_of (Vectors ko)). length vec \<le> 65535) \<and>
              length (frame_of ko idBytes schema meta vw offs) \<le> 4294967295 \<and>
              bs = frame_of ko idBytes schema meta vw offs)"
    (is "?L \<longleftrightarrow> ?R")
proof
  assume L: ?L
  have v: "MarshallerVersion ko = 1"
    using L by (simp add: MarshalBinary_def split: if_splits)
  from L v obtain idBytes where u: "uuid_Parse env (ID (Object ko)) = Inr idBytes"
    by (auto simp add: MarshalBinary_def ebind_eq_Inr)
  have lu: "length idBytes = 16" using assms(2)[OF u] .
  from L v u have lv: "length (slice_of (Vector ko)) \<le> 65535"
    by (auto simp add: MarshalBinary_def maxVectorLength_def split: if_splits)
  from L v u lv have lc: "length (Class (Object ko)) \<le> 65535"
    by (auto simp add: MarshalBinary_def maxVectorLength_def maxClassNameLength_def Let_def
        split: if_splits)
  from L v u lv lc obtain schema where
    s: "json_Marshal env (Properties (Object ko)) = Inr schema"
    by (auto simp add: MarshalBinary_def maxVectorLength_def maxClassNameLength_def Let_def
        ebind_eq_Inr)
  from L v u lv lc s have ls: "length schema \<le> 4294967295"
    by (auto simp add: MarshalBinary_def maxVectorLength_def maxClassNameLength_def Let_def
        maxSchemaLength_def split: if_splits)
  from L v u lv lc s ls obtain meta where
    m: "json_Marshal env (VMap (Additional (Object ko))) = Inr meta"
    by (auto simp add: MarshalBinary_def maxVectorLength_def maxClassNameLength_def Let_def
        maxSchemaLength_def ebind_eq_Inr)
  from L v u lv lc s ls m have lm: "length meta \<le> 4294967295"
    by (auto simp add: MarshalBinary_def maxVectorLength_def maxClassNameLength_def Let_def
        maxSchemaLength_def maxMetaLength_def split: if_splits)
  from L v u lv lc s ls m lm obtain vw where
    w: "json_Marshal env (VectorWeights (Object ko)) = Inr vw"
    by (auto simp add: MarshalBinary_def maxVectorLength_def maxClassNameLength_def Let_def
        maxSchemaLength_def maxMetaLength_def ebind_eq_Inr)
  from L v u lv lc s ls m lm w have lw: "length vw \<le> 4294967295"
    by (auto simp add: MarshalBinary_def maxVectorLength_def maxClassNameLength_def Let_def
        maxSchemaLength_def maxMetaLength_def maxVectorWeightsLength_def split: if_splits)
  from L v u lv lc s ls m lm w lw obtain r where
    p: "targetVectorsPlan env (Vectors ko) = Inr r"
    and wf: "(case r of (targetVectorsOffsets, targetVectorsOffsetsLength,
                 targetVectorsSegmentLength, targetVectorsOffsetOrder) \<Rightarrow>
              writeFrame ko idBytes (of_nat (length (slice_of (Vector ko))))
                (bytes_of (Class (Object ko))) (of_nat (length (bytes_of (Class (Object ko)))))
                schema (of_nat (length schema)) meta (of_nat (length meta)) vw
                (of_nat (length vw)) targetVectorsOffsets targetVectorsOffsetsLength
                targetVectorsSegmentLength targetVectorsOffsetOrder) = Inr bs"
    by (auto simp add: MarshalBinary_def maxVectorLength_def maxClassNameLength_def Let_def
        maxSchemaLength_def maxMetaLength_def maxVectorWeightsLength_def ebind_eq_Inr)
  note plan = targetVectorsPlan_Inr_iff[OF assms(1), of env r, unfolded p, simplified]
  show ?R
  proof (cases "slice_of (Vectors ko) = []")
    case True
    then have r: "r = ([], 0, 0, [])" using plan by simp
    have "writeFrame ko idBytes (of_nat (length (slice_of (Vector ko))))
            (bytes_of (Class (Object ko))) (of_nat (length (bytes_of (Class (Object ko)))))
            schema (of_nat (length schema)) meta (of_nat (length meta)) vw (of_nat (length vw))
            [] 0 0 [] = Inr bs"
      using wf r by simp
    then have "length (frame_of ko idBytes schema meta vw []) \<le> 4294967295
               \<and> bs = frame_of ko idBytes schema meta vw []"
      using writeFrame_of[OF assms(1) lu lv lc v ls lm lw, of "[]"] True
      by (simp split: if_splits)
    then show ?thesis
      using v u s m w lv lc True by (auto simp add: encoder_parts_def)
  next
    case False
    then obtain offs where
      b: "\<forall>vec \<in> snd ` set (slice_of (Vectors ko)). length vec \<le> 65535"
      and lseg: "length (segment_bytes (slice_of (Vectors ko))) \<le> 4294967295"
      and o: "msgpack_Marshal env (offsets_from 0 (slice_of (Vectors ko))) = Inr offs"
      and lo: "length offs \<le> 4294967295"
      and r: "r = (offs, of_nat (length offs), length (segment_bytes (slice_of (Vectors ko))),
                   map fst (slice_of (Vectors ko)))"
      using plan by auto
    have "length (frame_of ko idBytes schema meta vw offs) \<le> 4294967295
               \<and> bs = frame_of ko idBytes schema meta vw offs"
      using writeFrame_of[OF assms(1) lu lv lc v ls lm lw lo lseg] wf r
      by (simp split: if_splits)
    then show ?thesis
      using v u s m w lv lc False o b by (auto simp add: encoder_parts_def)
  qed
next
  assume ?R
  then obtain idBytes schema meta vw offs where
    v: "MarshallerVersion ko = 1"
    and parts: "encoder_parts env ko idBytes schema meta vw offs"
    and lv: "length (slice_of (Vector ko)) \<le> 65535"
    and lc: "length (Class (Object ko)) \<le> 65535"
    and b: "\<forall>vec \<in> snd ` set (slice_of (Vectors ko)). length vec \<le> 65535"
    and lF: "length (frame_of ko idBytes schema meta vw offs) \<le> 4294967295"
    and bs: "bs = frame_of ko idBytes schema meta vw offs"
    by blast
  have u: "uuid_Parse env (ID (Object ko)) = Inr idBytes"
    and s: "json_Marshal env (Properties (Object ko)) = Inr schema"
    and m: "json_Marshal env (VMap (Additional (Object ko))) = Inr meta"
    and w: "json_Marshal env (VectorWeights (Object ko)) = Inr vw"
    using parts by (simp_all add: encoder_parts_def)
  have lu: "length idBytes = 16" using assms(2)[OF u] .
  have ls: "length schema \<le> 4294967295" and lm: "length meta \<le> 4294967295"
    and lw: "length vw \<le> 4294967295" and lo: "length offs \<le> 4294967295"
    and lseg: "length (segment_bytes (slice_of (Vectors ko))) \<le> 4294967295"
    using lF unfolding length_frame_of by simp_all
  have plan: "targetVectorsPlan env (Vectors ko)
                = Inr (offs, of_nat (length offs), length (segment_bytes (slice_of (Vectors ko))),
                       map fst (slice_of (Vectors ko)))"
    unfolding targetVectorsPlan_Inr_iff[OF assms(1)]
    using parts b lseg lo by (auto simp add: encoder_parts_def)
  show ?L
    unfolding bs
    using v u s m w lv lc ls lm lw plan lF
      writeFrame_of[OF assms(1) lu lv lc v ls lm lw lo lseg]
    by (simp add: MarshalBinary_def maxVectorLength_def maxClassNameLength_def Let_def
        maxSchemaLength_def maxMetaLength_def maxVectorWeightsLength_def)
qed

subsection \<open>Reading a frame\<close>

text \<open>
  For the proofs a cursor is given by the bytes before its position and the bytes from
  it on.
\<close>

lemma floats_bytes_Cons [simp]: "floats_bytes (x # xs) = PutUint32 x @ floats_bytes xs"
  by (simp add: floats_bytes_def)

lemma floats_bytes_Nil [simp]: "floats_bytes [] = []"
  by (simp add: floats_bytes_def)

lemma readVector_floats:
  "take (4 * length vec) (drop p b) = floats_bytes vec \<Longrightarrow> p + 4 * length vec \<le> length b \<Longrightarrow>
   readVector \<lparr>Position = p, Buffer = b\<rparr> (length vec)
     = Inr (vec, \<lparr>Position = p + 4 * length vec, Buffer = b\<rparr>)"
proof (induction vec arbitrary: p)
  case Nil
  then show ?case by simp
next
  case (Cons x xs)
  have t: "take (4 + 4 * length xs) (drop p b) = PutUint32 x @ floats_bytes xs"
    using Cons.prems(1) by (simp add: add.commute)
  have "take 4 (take (4 + 4 * length xs) (drop p b)) = PutUint32 x"
    unfolding t by simp
  then have h: "take 4 (drop p b) = PutUint32 x"
    by (simp add: min_def)
  have "drop 4 (take (4 + 4 * length xs) (drop p b)) = floats_bytes xs"
    unfolding t by simp
  then have r: "take (4 * length xs) (drop (p + 4) b) = floats_bytes xs"
    by (simp add: drop_take add.commute)
  have "readVector \<lparr>Position = p + 4, Buffer = b\<rparr> (length xs)
          = Inr (xs, \<lparr>Position = p + 4 + 4 * length xs, Buffer = b\<rparr>)"
    using Cons.prems(2) by (intro Cons.IH r) simp
  then show ?case
    using Cons.prems(2) h by (simp add: ReadUint32_def add.assoc)
qed

definition rstate :: "byte list \<Rightarrow> byte list \<Rightarrow> ReadWriter" where
  "rstate pre rest = \<lparr>Position = length pre, Buffer = pre @ rest\<rparr>"

lemma NewReadWriter_rstate: "NewReadWriter data = rstate [] data"
  by (simp add: NewReadWriter_def rstate_def)

lemma NewReadWriterWithPosition_rstate:
  "n \<le> length data \<Longrightarrow> NewReadWriterWithPosition data n = rstate (take n data) (drop n data)"
  by (simp add: NewReadWriterWithPosition_def rstate_def)

lemma Position_rstate [simp]: "Position (rstate pre rest) = length pre"
  by (simp add: rstate_def)

lemma Buffer_rstate [simp]: "Buffer (rstate pre rest) = pre @ rest"
  by (simp add: rstate_def)

lemma ReadBytesFromBuffer_rstate [simp]:
  "ReadBytesFromBuffer (rstate pre rest) n =
     (if n \<le> length rest then Inr (take n rest, rstate (pre @ take n rest) (drop n rest))
      else Inl Truncated)"
  by (simp add: rstate_def min_def)

lemma MoveBufferPositionForward_rstate [simp]:
  "n \<le> length rest \<Longrightarrow>
   MoveBufferPositionForward (rstate pre rest) n = rstate (pre @ take n rest) (drop n rest)"
  by (simp add: rstate_def min_def)

lemma MoveBufferToAbsolutePosition_rstate [simp]:
  "MoveBufferToAbsolutePosition (rstate pre rest) q = \<lparr>Position = q, Buffer = pre @ rest\<rparr>"
  by (simp add: rstate_def)

lemma readVector_rstate:
  "length vec = n \<Longrightarrow>
   readVector (rstate pre (floats_bytes vec @ rest)) n
     = Inr (vec, rstate (pre @ floats_bytes vec) rest)"
  using readVector_floats[of vec "length pre" "pre @ floats_bytes vec @ rest"]
  by (auto simp add: rstate_def add.commute)

lemmas read_defs = ReadUint8_def ReadUint16_def
  ReadUint32_def ReadUint64_def CopyBytesFromBuffer_def
  ReadBytesFromBufferWithUint32LengthIndicator_def

lemma length_frame_head [simp]:
  "length (frame_head v d u c t) = 26 + length u"
  by (simp add: frame_head_def)

lemma length_frame_body [simp]:
  "length (frame_body vec cls s m w) = 16 + 4 * length vec + length cls + length s + length m + length w"
  by (simp add: frame_body_def)

lemma UnmarshalBinary_frame:
  assumes "length u = 16" "length vec \<le> 65535" "length cls \<le> 65535"
    "length s \<le> 4294967295" "length m \<le> 4294967295" "length w \<le> 4294967295"
    "uuid_FromBytes env u = Inr u'"
  shows "UnmarshalBinary env ko (frame_head 1 d u c t @ frame_body vec cls s m w @ tail) =
    ebind (unmarshalTargetVectors env
             (rstate (frame_head 1 d u c t @ frame_body vec cls s m w) tail))
      (\<lambda>(vectors, rw).
         parseObject env
           (ko\<lparr>MarshallerVersion := 1, DocID := d, VectorLen := length vec,
               Vector := Some vec, Vectors := vectors\<rparr>)
           (uuid_String env u') c t (string_of cls) s m w None 0)"
proof -
  let ?data = "frame_head 1 d u c t @ frame_body vec cls s m w @ tail"
  have n0: "NewReadWriterWithPosition ?data 1 = rstate [1] (drop 1 ?data)"
    using NewReadWriterWithPosition_rstate[of 1 ?data] by (simp add: frame_head_def)
  show ?thesis
    unfolding UnmarshalBinary_def n0
    using assms
    apply (simp add: read_defs frame_head_def frame_body_def Let_def
       readVector_rstate cong: ebind_weak_cong)
    apply (simp add: Let_def)
    done
qed


lemma unmarshalTargetVectors_at_end:
  "unmarshalTargetVectors env (rstate pre []) = Inr (None, rstate pre [])"
  by (simp add: unmarshalTargetVectors_def)

lemma length_frame_tail [simp]: "length (frame_tail offs seg) = 8 + length offs + length seg"
  by (simp add: frame_tail_def)

lemma readTargetVectors_ok:
  assumes "\<And>name off. (name, off) \<in> set m \<Longrightarrow>
             \<exists>vec. map_of vs name = Some vec \<and> length vec \<le> 65535 \<and>
                   pos + unat off + 2 + 4 * length vec \<le> length b \<and>
                   take (2 + 4 * length vec) (drop (pos + unat off) b)
                     = PutUint16 (of_nat (length vec)) @ floats_bytes vec"
  shows "\<exists>tv p'. readTargetVectors \<lparr>Position = p, Buffer = b\<rparr> pos m acc
                     = Inr (tv, \<lparr>Position = p', Buffer = b\<rparr>) \<and>
                 map_of tv = (\<lambda>k. if k \<in> fst ` set m then map_of vs k else map_of acc k) \<and>
                 (distinct (map fst acc) \<longrightarrow> distinct (map fst tv))"
  using assms
proof (induction m arbitrary: p acc)
  case Nil
  then show ?case by simp
next
  case (Cons a m)
  obtain name off where a: "a = (name, off)" by (cases a)
  let ?q = "pos + unat off"
  from Cons.prems[of name off] a obtain vec where
    v: "map_of vs name = Some vec" and lv: "length vec \<le> 65535"
    and bound: "?q + 2 + 4 * length vec \<le> length b"
    and t: "take (2 + 4 * length vec) (drop ?q b) = PutUint16 (of_nat (length vec)) @ floats_bytes vec"
    by auto
  have "take 2 (take (2 + 4 * length vec) (drop ?q b)) = PutUint16 (of_nat (length vec))"
    unfolding t by simp
  then have h: "take 2 (drop ?q b) = PutUint16 (of_nat (length vec))"
    by (simp add: min_def)
  have "drop 2 (take (2 + 4 * length vec) (drop ?q b)) = floats_bytes vec"
    unfolding t by simp
  then have r: "take (4 * length vec) (drop (?q + 2) b) = floats_bytes vec"
    by (simp add: drop_take add.commute)
  have rv: "readVector \<lparr>Position = ?q + 2, Buffer = b\<rparr> (length vec)
          = Inr (vec, \<lparr>Position = ?q + 2 + 4 * length vec, Buffer = b\<rparr>)"
    using bound by (intro readVector_floats r) simp
  have IH: "\<exists>tv p'. readTargetVectors \<lparr>Position = ?q + 2 + 4 * length vec, Buffer = b\<rparr> pos m
                        (AList.update name vec acc)
                     = Inr (tv, \<lparr>Position = p', Buffer = b\<rparr>) \<and>
                 map_of tv = (\<lambda>k. if k \<in> fst ` set m then map_of vs k
                                     else map_of (AList.update name vec acc) k) \<and>
                 (distinct (map fst (AList.update name vec acc)) \<longrightarrow> distinct (map fst tv))"
    by (rule Cons.IH) (use Cons.prems in auto)
  then obtain tv p' where
    rt: "readTargetVectors \<lparr>Position = ?q + 2 + 4 * length vec, Buffer = b\<rparr> pos m
           (AList.update name vec acc) = Inr (tv, \<lparr>Position = p', Buffer = b\<rparr>)"
    and mp: "map_of tv = (\<lambda>k. if k \<in> fst ` set m then map_of vs k
                                     else map_of (AList.update name vec acc) k)"
    and di: "distinct (map fst (AList.update name vec acc)) \<longrightarrow> distinct (map fst tv)"
    by blast
  have step: "readTargetVectors \<lparr>Position = p, Buffer = b\<rparr> pos (a # m) acc
                = Inr (tv, \<lparr>Position = p', Buffer = b\<rparr>)"
    unfolding a using bound h lv rv rt by (simp add: ReadUint16_def)
  have "map_of tv = (\<lambda>k. if k \<in> fst ` set (a # m) then map_of vs k else map_of acc k)"
    unfolding mp a using v by (auto simp add: update_conv' fun_eq_iff)
  moreover have "distinct (map fst acc) \<longrightarrow> distinct (map fst tv)"
    using di by (simp add: distinct_update)
  ultimately show ?case using step by blast
qed


lemma offsets_from_mem:
  "(name, off) \<in> set (offsets_from sl vs) \<Longrightarrow>
   \<exists>pre vec post. vs = pre @ (name, vec) # post \<and> off = of_nat (sl + length (segment_bytes pre))"
proof (induction sl vs rule: offsets_from.induct)
  case (1 sl)
  then show ?case by simp
next
  case (2 sl n v rest)
  show ?case
  proof (cases "(name, off) = (n, of_nat sl)")
    case True
    then have "(n, v) # rest = [] @ (name, v) # rest \<and> off = of_nat (sl + length (segment_bytes []))"
      by simp
    then show ?thesis by blast
  next
    case False
    have "(name, off) \<in> set ((n, of_nat sl) # offsets_from (sl + (2 + 4 * length v)) rest)"
      using "2.prems" by simp
    with False have "(name, off) \<in> set (offsets_from (sl + (2 + 4 * length v)) rest)"
      by (simp del: prod.inject)
    from "2.IH"[OF this] obtain pre vec post where
      "rest = pre @ (name, vec) # post"
      "off = of_nat (sl + (2 + 4 * length v) + length (segment_bytes pre))"
      by blast
    then have "(n, v) # rest = ((n, v) # pre) @ (name, vec) # post \<and>
               off = of_nat (sl + length (segment_bytes ((n, v) # pre)))"
      by (simp add: add.assoc)
    then show ?thesis by blast
  qed
qed

lemma unmarshalTargetVectors_frame_tail:
  assumes d: "distinct (map fst vs)"
    and bnd: "\<forall>vec \<in> snd ` set vs. length vec \<le> 65535"
    and lseg: "length (segment_bytes vs) \<le> 4294967295"
    and lo: "length offs \<le> 4294967295" and ne: "offs \<noteq> []"
    and un: "msgpack_Unmarshal env offs = Inr m'"
    and sm: "set m' = set (offsets_from 0 vs)"
  shows "\<exists>tv rw'. unmarshalTargetVectors env (rstate pre (frame_tail offs (segment_bytes vs)))
                     = Inr (Some tv, rw') \<and> map_of tv = map_of vs \<and> distinct (map fst tv)"
proof -
  let ?seg = "segment_bytes vs"
  let ?pre' = "pre @ PutUint32 (of_nat (length offs)) @ offs @ PutUint32 (of_nat (length ?seg))"
  let ?b = "?pre' @ ?seg"
  have entry: "\<exists>vec. map_of vs name = Some vec \<and> length vec \<le> 65535 \<and>
                   length ?pre' + unat off + 2 + 4 * length vec \<le> length ?b \<and>
                   take (2 + 4 * length vec) (drop (length ?pre' + unat off) ?b)
                     = PutUint16 (of_nat (length vec)) @ floats_bytes vec"
    if "(name, off) \<in> set m'" for name off
  proof -
    from that sm obtain p vec post where
      vs: "vs = p @ (name, vec) # post" and off: "off = of_nat (length (segment_bytes p))"
      using offsets_from_mem[of name off 0 vs] by auto
    have seg: "?seg = segment_bytes p @ (PutUint16 (of_nat (length vec)) @ floats_bytes vec)
                        @ segment_bytes post"
      unfolding vs by (simp add: segment_bytes_def)
    have "length (segment_bytes p) \<le> length ?seg"
      unfolding seg by simp
    then have uo: "unat off = length (segment_bytes p)"
      unfolding off using lseg by simp
    have mv: "map_of vs name = Some vec"
      by (rule map_of_is_SomeI[OF d]) (simp add: vs)
    have lv: "length vec \<le> 65535"
      using bnd unfolding vs by simp
    have "drop (length ?pre' + unat off) ?b = drop (length (segment_bytes p)) ?seg"
      unfolding uo by simp
    also have "\<dots> = (PutUint16 (of_nat (length vec)) @ floats_bytes vec) @ segment_bytes post"
      unfolding seg by simp
    finally have dr: "drop (length ?pre' + unat off) ?b
                        = (PutUint16 (of_nat (length vec)) @ floats_bytes vec) @ segment_bytes post" .
    have tk: "take (2 + 4 * length vec) (drop (length ?pre' + unat off) ?b)
                = PutUint16 (of_nat (length vec)) @ floats_bytes vec"
      unfolding dr by simp
    have "length ?pre' + unat off + 2 + 4 * length vec \<le> length ?b"
      unfolding uo by (simp add: seg)
    then show ?thesis using mv lv tk by blast
  qed
  obtain tv p' where
    rt: "readTargetVectors \<lparr>Position = length ?pre', Buffer = ?b\<rparr> (length ?pre') m' []
           = Inr (tv, \<lparr>Position = p', Buffer = ?b\<rparr>)"
    and mp: "map_of tv = (\<lambda>k. if k \<in> fst ` set m' then map_of vs k else map_of [] k)"
    and di: "distinct (map fst tv)"
    using readTargetVectors_ok[of m' vs "length ?pre'" ?b "length ?pre'" "[]", OF entry] by auto
  have keys: "fst ` set m' = fst ` set vs"
    unfolding sm using fst_offsets_from[of 0 vs] by (metis set_map)
  have "map_of tv = map_of vs"
  proof
    fix k
    show "map_of tv k = map_of vs k"
    proof (cases "k \<in> fst ` set vs")
      case True
      then show ?thesis unfolding mp keys by simp
    next
      case False
      then have "map_of vs k = None" by (simp add: map_of_eq_None_iff)
      then show ?thesis unfolding mp keys using False by simp
    qed
  qed
  moreover have eqP: "length ?pre' = 8 + (length pre + length offs)"
    by simp
  have "unmarshalTargetVectors env (rstate pre (frame_tail offs ?seg))
          = Inr (Some tv, \<lparr>Position = length ?pre' + length ?seg, Buffer = ?b\<rparr>)"
    unfolding eqP
    using lo lseg ne un rt[unfolded eqP]
    by (simp add: unmarshalTargetVectors_def read_defs frame_tail_def Let_def rstate_def)
  ultimately show ?thesis using di by blast
qed

lemma unmarshalTargetVectors_no_vectors:
  assumes "length seg \<le> 4294967295"
  shows "\<exists>rw'. unmarshalTargetVectors env (rstate pre (frame_tail [] seg)) = Inr (None, rw')"
  using assms
  by (simp add: unmarshalTargetVectors_def read_defs frame_tail_def Let_def)

subsection \<open>The sample objects encoded\<close>

lemma bytes_of_null [simp]: "bytes_of ''null'' = null_bytes"
  by (simp add: bytes_of_def null_bytes_def)

lemma MarshalBinary_succeeds:
  assumes "encoder_parts env ko idBytes schema meta vw offs"
    and "MarshallerVersion ko = 1" and "length idBytes = 16"
    and "distinct (map fst (slice_of (Vectors ko)))"
    and "length (slice_of (Vector ko)) \<le> 65535" and "length (Class (Object ko)) \<le> 65535"
    and "\<forall>vec \<in> snd ` set (slice_of (Vectors ko)). length vec \<le> 65535"
    and "length (frame_of ko idBytes schema meta vw offs) \<le> 4294967295"
  shows "MarshalBinary env ko = Inr (frame_of ko idBytes schema meta vw offs)"
proof -
  have "length u = 16" if "uuid_Parse env (ID (Object ko)) = Inr u" for u
    using that assms(1,3) by (simp add: encoder_parts_def)
  from MarshalBinary_Inr_iff[OF assms(4) this] assms show ?thesis
    by blast
qed

lemma MarshalBinary_demo_object:
  assumes "length vec \<le> 65535"
  shows "MarshalBinary demo_env (demo_object vec)
           = Inr (frame_of (demo_object vec) (replicate 16 17) null_bytes null_bytes null_bytes [])"
  by (rule MarshalBinary_succeeds)
     (use assms in \<open>simp_all add: encoder_parts_def demo_env_def demo_object_def
        demo_json_Marshal_def slice_of_def length_frame_of null_bytes_def\<close>)

lemma PutUint32_one: "PutUint32 one_f32 = [0, 0, 0x80, 0x3F]"
  by (simp add: PutUint32_def one_f32_def le_bytes_4)

lemma frame_of_demo_object:
  "frame_of (demo_object vec) (replicate 16 17) null_bytes null_bytes null_bytes []
     = frame_head 1 42 (replicate 16 17) 1000 2000
       @ frame_body vec (bytes_of ''Thing'') null_bytes null_bytes null_bytes
       @ frame_tail [] []"
  by (simp add: frame_of_def demo_object_def slice_of_def)

lemma take_2_floats_bytes_ones:
  "take 2 (floats_bytes (replicate 16384 one_f32)) = [0, 0]"
proof -
  have "one_f32 # replicate 16383 one_f32 = replicate (Suc 16383) one_f32"
    by (rule replicate_Suc[symmetric])
  then have "replicate 16384 one_f32 = one_f32 # replicate 16383 one_f32"
    by simp
  then show ?thesis
    by (simp add: PutUint32_one)
qed

lemma Uint16_zeros: "Uint16 [0, 0] = 0"
  by (simp add: Uint16_def)

subsection \<open>The sample bucket fetched\<close>

lemma FromBinaryOptional_small_frame:
  "FromBinaryOptional demo_env (small_frame d) default_mask
     (Some \<lparr>PropStrings = [''name''], PropStringsList = [[''name'']]\<rparr>) = Inr (fetched d)"
  apply (simp add: FromBinaryOptional_def NewReadWriter_rstate read_defs small_frame_def frame_head_def
       frame_body_def frame_tail_def Let_def default_mask_def needs_enrichment_def
       parseObject_def demo_env_def fetched_def zero_Object_def zero_models_Object_def
       null_bytes_def)
  done


lemma objectsByDocIDSequential_demo_12:
  "objectsByDocIDSequential demo_env (Some demo_bucket) [1, 2] default_mask (Some [''name''])
     = Inr [fetched 1, fetched 2]"
  by (simp add: objectsByDocIDSequential_def demo_bucket_def FromBinaryOptional_small_frame)

lemma objectsByDocIDSequential_demo_34:
  "objectsByDocIDSequential demo_env (Some demo_bucket) [3, 4] default_mask (Some [''name''])
     = Inr [fetched 4]"
  by (simp add: objectsByDocIDSequential_def demo_bucket_def FromBinaryOptional_small_frame)

lemma parallelLoop_numeral:
  "parallelLoop (numeral n) env bucket ids addProp properties chunkSize chunk out
     = parallelLoop (Suc (pred_numeral n)) env bucket ids addProp properties chunkSize chunk out"
  by (simp only: numeral_eq_Suc)

lemma objectsByDocIDSequential_demo_1234:
  "objectsByDocIDSequential demo_env (Some demo_bucket) [1, 2, 3, 4] default_mask (Some [''name''])
     = Inr [fetched 1, fetched 2, fetched 4]"
  by (simp add: objectsByDocIDSequential_def demo_bucket_def FromBinaryOptional_small_frame)

section \<open>The claims\<close>

text \<open>
  C9. \<open>VectorFromBinary\<close> on an empty byte slice returns the nil vector and no error,
  for every scratch buffer and every target name: the version check and the access at
  offset 42 are behind the test \<open>len(in) == 0\<close>.
\<close>

theorem VectorFromBinary_empty_input:
  "VectorFromBinary env [] buffer targetVector = Inr None"
  by (simp add: VectorFromBinary_def)

text \<open>
  C2, at a failing input. The object \<open>big_object\<close> has marshaller version 1 and a
  primary vector of 16384 elements, each 1.0. It encodes, to \<open>big_frame\<close>, whose
  bytes 42 and 43 hold the length 16384. \<open>VectorFromBinary\<close> with the empty target
  name and no scratch buffer returns no error and a vector of 16384 zeros, not the
  object's vector: \<open>vecLen*4\<close> is a \<open>uint16\<close> product and wraps to 0, so the copy
  loop from \<open>vecStart\<close> to \<open>vecEnd\<close> does not run.
\<close>

theorem VectorFromBinary_big_frame:
  "MarshalBinary demo_env big_object = Inr big_frame \<and>
   Uint16 (take 2 (drop 42 big_frame)) = 16384 \<and>
   VectorFromBinary demo_env big_frame [] [] = Inr (Some (replicate 16384 0)) \<and>
   Vector big_object = Some (replicate 16384 one_f32) \<and>
   replicate 16384 one_f32 \<noteq> replicate 16384 (0 :: float32)"
proof -
  have m: "MarshalBinary demo_env big_object = Inr big_frame"
    unfolding big_object_def big_frame_def by (rule MarshalBinary_demo_object) simp
  have l: "Uint16 (take 2 (drop 42 big_frame)) = 16384"
    unfolding big_frame_def big_object_def frame_of_demo_object
    by (simp add: frame_head_def frame_body_def)
  have v: "VectorFromBinary demo_env big_frame [] [] = Inr (Some (replicate 16384 0))"
    unfolding big_frame_def big_object_def frame_of_demo_object
    by (simp add: VectorFromBinary_def frame_head_def frame_body_def Let_def
          vectorLoop.simps[of _ 44 44])
  have o: "Vector big_object = Some (replicate 16384 one_f32)"
    by (simp add: big_object_def demo_object_def)
  have "hd (replicate 16384 one_f32) \<noteq> hd (replicate 16384 (0 :: float32))"
    by (simp add: one_f32_def)
  then have n: "replicate 16384 one_f32 \<noteq> replicate 16384 (0 :: float32)"
    by metis
  from m l v o n show ?thesis by simp
qed

text \<open>
  C3, at a failing input. For the same object, of class \<open>Thing\<close>,
  \<open>FromBinaryUUIDOnly\<close> on its frame returns the id of the object but the empty class
  name: \<open>vecLen * 4\<close> is a \<open>uint16\<close> product and wraps to 0, the cursor is not moved
  over the vector, and the length of the class name is read from the first two bytes
  of the vector, which are 0.
\<close>

theorem FromBinaryUUIDOnly_big_frame:
  "MarshalBinary demo_env big_object = Inr big_frame \<and>
   FromBinaryUUIDOnly demo_env big_frame
     = Inr (zero_Object\<lparr>MarshallerVersion := 1, DocID := 42,
              Object := zero_models_Object\<lparr>ID := demo_id, Class := []\<rparr>\<rparr>) \<and>
   ID (Object big_object) = demo_id \<and>
   Class (Object big_object) = ''Thing''"
proof -
  have m: "MarshalBinary demo_env big_object = Inr big_frame"
    unfolding big_object_def big_frame_def by (rule MarshalBinary_demo_object) simp
  have d: "FromBinaryUUIDOnly demo_env big_frame
     = Inr (zero_Object\<lparr>MarshallerVersion := 1, DocID := 42,
              Object := zero_models_Object\<lparr>ID := demo_id, Class := []\<rparr>\<rparr>)"
    unfolding big_frame_def big_object_def frame_of_demo_object
    by (simp add: FromBinaryUUIDOnly_def NewReadWriter_rstate read_defs frame_head_def
          frame_body_def Let_def demo_env_def zero_Object_def take_2_floats_bytes_ones
          Uint16_zeros string_of_def)
  from m d show ?thesis
    by (simp add: big_object_def demo_object_def)
qed

text \<open>
  C1, at a failing input: scenario E6 of the specification. For the ids 1, 2, 3, 4,
  a bucket that returns nil for id 3, the default mask and the projection \<open>name\<close>,
  on one processor (two chunks of two ids), \<open>ObjectsByDocID\<close> returns no error and a
  slice of length 4: the three objects, in the order 1, 2, 4, and then a nil entry.
  The hole is kept: \<open>objectsByDocIDParallel\<close> copies the compacted result of each
  chunk to the start of the chunk's range and returns the whole array. The
  sequential path alone, on the same ids, returns the three objects.
\<close>

theorem ObjectsByDocID_missing_id:
  "ObjectsByDocID demo_env (Some demo_bucket) [1, 2, 3, 4] default_mask (Some [''name''])
     = Inr [Some (fetched 1), Some (fetched 2), Some (fetched 4), None] \<and>
   objectsByDocIDSequential demo_env (Some demo_bucket) [1, 2, 3, 4] default_mask
     (Some [''name'']) = Inr [fetched 1, fetched 2, fetched 4]"
proof -
  have g: "GOMAXPROCS demo_env = 1"
    by (simp add: demo_env_def)
  have r: "replicate 4 None = [None, None, None, None :: storobj option]"
    by (simp add: numeral_eq_Suc)
  have "parallelLoop 2 demo_env (Some demo_bucket) [1, 2, 3, 4] default_mask
          (Some [''name'']) 2 0 [None, None, None, None]
        = Inr [Some (fetched 1), Some (fetched 2), Some (fetched 4), None]"
    by (simp add: parallelLoop_numeral Let_def objectsByDocIDSequential_demo_12
          objectsByDocIDSequential_demo_34 copy_chunk_def)
  moreover have len: "length [1, 2, 3, 4 :: 64 word] = 4"
    by simp
  moreover have p: "2 * GOMAXPROCS demo_env = 2"
    by (simp add: g)
  moreover have c: "max ((4 + 2 - 1) div 2) 1 = (2::nat)"
    by simp
  ultimately have "ObjectsByDocID demo_env (Some demo_bucket) [1, 2, 3, 4] default_mask
      (Some [''name''])
     = Inr [Some (fetched 1), Some (fetched 2), Some (fetched 4), None]"
    unfolding ObjectsByDocID_def objectsByDocIDParallel_def Let_def len p c r
    by (simp del: parallelLoop.simps)
  then show ?thesis
    using objectsByDocIDSequential_demo_1234 by simp
qed

end
